theory Spec2Isabelle
  imports Complex_Main "HOL-Library.Monad_Syntax"
begin

section \<open>Conventions of the embedding\<close>

text \<open>
  The Go sources under \<^verbatim>\<open>internal/ai\<close>, \<^verbatim>\<open>internal/game\<close> and the agent file are
  embedded function by function.

  \<^item> A \<^verbatim>\<open>float64\<close> is a \<open>real\<close>: rounding, infinities and NaN are not modelled.
    The concrete inputs below are chosen so that the \<^verbatim>\<open>float64\<close> arithmetic performed on them
    is exact.
  \<^item> A Go \<^verbatim>\<open>int\<close> is an \<open>int\<close>; the one counter that is incremented without a
    bound (\<^verbatim>\<open>StepCount++\<close>) wraps around at 64 bits through \<open>wrap64\<close>, and \<^verbatim>\<open>%\<close> is the
    truncated remainder \<open>go_rem\<close>.
  \<^item> A slice is a list. Networks, buffers and agents are values, so the private copies
    that \<^verbatim>\<open>Add\<close>, \<^verbatim>\<open>Clone\<close> and \<^verbatim>\<open>CopyFrom\<close> make are equal lists here.
  \<^item> A function that can panic at run time (index out of range, integer division by
    zero, \<^verbatim>\<open>make\<close> with a negative length) returns an \<open>option\<close>; \<open>None\<close> is the panic.
  \<^item> The results of \<^verbatim>\<open>math/rand\<close>, of the file system and of \<^verbatim>\<open>encoding/gob\<close> are
    parameters of the functions that consume them.
\<close>

type_synonym vec = "real list"
type_synonym matrix = "real list list"

definition wrap64 :: "int \<Rightarrow> int" where
  "wrap64 x = (x + 2 ^ 63) mod 2 ^ 64 - 2 ^ 63"

definition go_rem :: "int \<Rightarrow> int \<Rightarrow> int" where
  "go_rem a b = sgn a * (\<bar>a\<bar> mod \<bar>b\<bar>)"

definition go_quot :: "int \<Rightarrow> int \<Rightarrow> int" where
  "go_quot a b = sgn a * sgn b * (\<bar>a\<bar> div \<bar>b\<bar>)"

text \<open>\<^verbatim>\<open>xs[i]\<close> with the bounds check of the Go runtime.\<close>

definition idx :: "'a list \<Rightarrow> int \<Rightarrow> 'a option" where
  "idx xs i = (if 0 \<le> i \<and> i < int (length xs) then Some (xs ! nat i) else None)"

text \<open>The builtin \<^verbatim>\<open>copy(dst, src)\<close>: the first \<open>min (len dst) (len src)\<close> elements.\<close>

definition go_copy :: "'a list \<Rightarrow> 'a list \<Rightarrow> 'a list" where
  "go_copy dst src = take (length dst) src @ drop (length src) dst"

text \<open>\<^verbatim>\<open>make([]float64, n)\<close>: a zeroed slice, a panic when \<open>n\<close> is negative.\<close>

definition make_vec :: "int \<Rightarrow> vec option" where
  "make_vec n = (if n < 0 then None else Some (replicate (nat n) 0))"

section \<open>network.go\<close>

record QNetwork =
  W1 :: matrix
  B1 :: vec
  W2 :: matrix
  B2 :: vec
  W3 :: matrix
  B3 :: vec
  InputSize :: int
  HiddenSize1 :: int
  HiddenSize2 :: int
  OutputSize :: int
  LearningRate :: real

record forwardCache =
  input :: vec
  z1 :: vec
  h1 :: vec
  z2 :: vec
  h2 :: vec

text \<open>
  The inner loop of \<^verbatim>\<open>linearForward\<close> for one output column \<open>j\<close>:
  \<^verbatim>\<open>for i := 0; i < len(input); i++ { sum += input[i] * weights[i][j] }\<close>.
  Input and weight rows are walked together; a missing row or a short row panics.
\<close>

fun dotcol :: "vec \<Rightarrow> matrix \<Rightarrow> nat \<Rightarrow> real \<Rightarrow> real option" where
  "dotcol [] ws j s = Some s"
| "dotcol (x # xs) [] j s = None"
| "dotcol (x # xs) (w # ws) j s =
     (if j < length w then dotcol xs ws j (s + x * (w ! j)) else None)"

text \<open>Running a loop body over a list of indices; the first panic ends the loop.\<close>

fun collect :: "('a \<Rightarrow> 'b option) \<Rightarrow> 'a list \<Rightarrow> 'b list option" where
  "collect f [] = Some []"
| "collect f (x # xs) =
     (case f x of None \<Rightarrow> None
      | Some y \<Rightarrow> (case collect f xs of None \<Rightarrow> None | Some ys \<Rightarrow> Some (y # ys)))"

definition linearForward :: "vec \<Rightarrow> matrix \<Rightarrow> vec \<Rightarrow> vec option" where
  "linearForward inp weights bias =
     collect (\<lambda>j. dotcol inp weights j (bias ! j)) [0..<length bias]"

definition relu :: "vec \<Rightarrow> vec" where
  "relu x = map (\<lambda>v. if v > 0 then v else 0) x"

definition reluDerivative :: "vec \<Rightarrow> vec" where
  "reluDerivative z = map (\<lambda>v. if v > 0 then 1 else 0) z"

definition Forward :: "QNetwork \<Rightarrow> vec \<Rightarrow> vec option" where
  "Forward n inp =
     do {
       h1 \<leftarrow> linearForward inp (W1 n) (B1 n);
       h2 \<leftarrow> linearForward (relu h1) (W2 n) (B2 n);
       linearForward (relu h2) (W3 n) (B3 n)
     }"

definition ForwardWithCache :: "QNetwork \<Rightarrow> vec \<Rightarrow> (vec \<times> forwardCache) option" where
  "ForwardWithCache n inp =
     do {
       z1 \<leftarrow> linearForward inp (W1 n) (B1 n);
       z2 \<leftarrow> linearForward (relu z1) (W2 n) (B2 n);
       output \<leftarrow> linearForward (relu z2) (W3 n) (B3 n);
       Some (output,
         \<lparr>input = inp, z1 = z1, h1 = relu z1, z2 = z2, h2 = relu z2\<rparr>)
     }"

text \<open>
  \<^verbatim>\<open>linearBackward\<close>, first loop: \<^verbatim>\<open>dInput[i] += weights[i][j] * dOutput[j]\<close>.
  \<open>rowgrad\<close> is the loop over \<open>j\<close> for one row, \<open>gradInput\<close> the loop over \<open>i\<close>.
  With an empty \<open>dOutput\<close> no row is ever read.
\<close>

fun rowgrad :: "vec \<Rightarrow> vec \<Rightarrow> real \<Rightarrow> real option" where
  "rowgrad w [] s = Some s"
| "rowgrad [] (d # ds) s = None"
| "rowgrad (x # w) (d # ds) s = rowgrad w ds (s + x * d)"

fun gradInput :: "vec \<Rightarrow> matrix \<Rightarrow> vec \<Rightarrow> vec option" where
  "gradInput [] ws d = Some []"
| "gradInput (x # xs) ws [] = Some (replicate (Suc (length xs)) 0)"
| "gradInput (x # xs) [] (d # ds) = None"
| "gradInput (x # xs) (w # ws) (d # ds) =
     (case rowgrad w (d # ds) 0 of None \<Rightarrow> None
      | Some g \<Rightarrow> (case gradInput xs ws (d # ds) of None \<Rightarrow> None
                  | Some gs \<Rightarrow> Some (g # gs)))"

text \<open>
  Second loop: \<^verbatim>\<open>weights[i][j] -= lr * input[i] * dOutput[j]\<close> for \<open>i < len(input)\<close>,
  \<open>j < len(dOutput)\<close>. It reads the cells the first loop has read, so it runs only
  where the first loop has not panicked; the other cells stay as they are.
\<close>

definition updRow :: "real \<Rightarrow> real \<Rightarrow> vec \<Rightarrow> vec \<Rightarrow> vec" where
  "updRow lr x w d = map (\<lambda>(wij, dj). wij - lr * x * dj) (zip w d) @ drop (length d) w"

definition updWeights :: "real \<Rightarrow> vec \<Rightarrow> matrix \<Rightarrow> vec \<Rightarrow> matrix" where
  "updWeights lr inp ws d =
     map (\<lambda>(x, w). updRow lr x w d) (zip inp ws) @ drop (length inp) ws"

text \<open>Third loop: \<^verbatim>\<open>bias[j] -= lr * dOutput[j]\<close>, a panic when the bias is too short.\<close>

definition updBias :: "real \<Rightarrow> vec \<Rightarrow> vec \<Rightarrow> vec option" where
  "updBias lr bias d =
     (if length bias < length d then None
      else Some (map (\<lambda>(b, dj). b - lr * dj) (zip bias d) @ drop (length d) bias))"

text \<open>
  \<^verbatim>\<open>linearBackward\<close> is only called with \<^verbatim>\<open>update = true\<close>. It returns the gradient
  with respect to its input together with the updated weights and bias.
\<close>

definition linearBackward ::
    "real \<Rightarrow> vec \<Rightarrow> matrix \<Rightarrow> vec \<Rightarrow> vec \<Rightarrow> (vec \<times> matrix \<times> vec) option" where
  "linearBackward lr inp weights bias dOutput =
     do {
       dInput \<leftarrow> gradInput inp weights dOutput;
       bias' \<leftarrow> updBias lr bias dOutput;
       Some (dInput, updWeights lr inp weights dOutput, bias')
     }"

fun elementMul :: "vec \<Rightarrow> vec \<Rightarrow> vec option" where
  "elementMul [] b = Some []"
| "elementMul (x # a) [] = None"
| "elementMul (x # a) (y # b) =
     (case elementMul a b of None \<Rightarrow> None | Some r \<Rightarrow> Some (x * y # r))"

definition Backward :: "QNetwork \<Rightarrow> forwardCache \<Rightarrow> vec \<Rightarrow> int \<Rightarrow> real \<Rightarrow> QNetwork option" where
  "Backward n cache output targetAction targetQ =
     do {
       zeros \<leftarrow> make_vec (OutputSize n);
       out \<leftarrow> idx output targetAction;
       _ \<leftarrow> idx zeros targetAction;
       let dOutput = zeros[nat targetAction := out - targetQ];
       (dH2, w3, b3) \<leftarrow> linearBackward (LearningRate n) (h2 cache) (W3 n) (B3 n) dOutput;
       dZ2 \<leftarrow> elementMul dH2 (reluDerivative (z2 cache));
       (dH1, w2, b2) \<leftarrow> linearBackward (LearningRate n) (h1 cache) (W2 n) (B2 n) dZ2;
       dZ1 \<leftarrow> elementMul dH1 (reluDerivative (z1 cache));
       (_, w1, b1) \<leftarrow> linearBackward (LearningRate n) (input cache) (W1 n) (B1 n) dZ1;
       Some (n\<lparr>W1 := w1, B1 := b1, W2 := w2, B2 := b2, W3 := w3, B3 := b3\<rparr>)
     }"

text \<open>
  \<^verbatim>\<open>copyMatrix\<close>: \<^verbatim>\<open>for i := range src { copy(dst[i], src[i]) }\<close>; \<^verbatim>\<open>dst[i]\<close> panics
  when \<open>src\<close> has more rows than \<open>dst\<close>.
\<close>

fun copyMatrix :: "matrix \<Rightarrow> matrix \<Rightarrow> matrix option" where
  "copyMatrix dst [] = Some dst"
| "copyMatrix [] (s # src) = None"
| "copyMatrix (d # dst) (s # src) =
     (case copyMatrix dst src of None \<Rightarrow> None | Some r \<Rightarrow> Some (go_copy d s # r))"

definition CopyFrom :: "QNetwork \<Rightarrow> QNetwork \<Rightarrow> QNetwork option" where
  "CopyFrom n other =
     do {
       w1 \<leftarrow> copyMatrix (W1 n) (W1 other);
       w2 \<leftarrow> copyMatrix (W2 n) (W2 other);
       w3 \<leftarrow> copyMatrix (W3 n) (W3 other);
       Some (n\<lparr>W1 := w1, B1 := go_copy (B1 n) (B1 other),
               W2 := w2, B2 := go_copy (B2 n) (B2 other),
               W3 := w3, B3 := go_copy (B3 n) (B3 other)\<rparr>)
     }"

text \<open>
  \<^verbatim>\<open>xavierInit\<close>: \<open>g\<close> is the sequence of \<^verbatim>\<open>NormFloat64\<close> draws of the generator and
  \<open>off\<close> the number of draws already made. \<^verbatim>\<open>make\<close> panics on a negative length.
\<close>

definition xavierInit :: "int \<Rightarrow> int \<Rightarrow> (nat \<Rightarrow> real) \<Rightarrow> nat \<Rightarrow> matrix option" where
  "xavierInit fanIn fanOut g off =
     (if fanIn < 0 \<or> (0 < fanIn \<and> fanOut < 0) then None
      else Some (map (\<lambda>i. map (\<lambda>j. g (off + i * nat fanOut + j)
                                   * sqrt (2 / real_of_int (fanIn + fanOut)))
                              [0..<nat fanOut])
                     [0..<nat fanIn]))"

definition NewQNetwork ::
    "int \<Rightarrow> int \<Rightarrow> int \<Rightarrow> int \<Rightarrow> real \<Rightarrow> (nat \<Rightarrow> real) \<Rightarrow> QNetwork option" where
  "NewQNetwork inputSize hiddenSize1 hiddenSize2 outputSize lr g =
     do {
       w1 \<leftarrow> xavierInit inputSize hiddenSize1 g 0;
       b1 \<leftarrow> make_vec hiddenSize1;
       w2 \<leftarrow> xavierInit hiddenSize1 hiddenSize2 g (nat (inputSize * hiddenSize1));
       b2 \<leftarrow> make_vec hiddenSize2;
       w3 \<leftarrow> xavierInit hiddenSize2 outputSize g
               (nat (inputSize * hiddenSize1) + nat (hiddenSize1 * hiddenSize2));
       b3 \<leftarrow> make_vec outputSize;
       Some \<lparr>W1 = w1, B1 = b1, W2 = w2, B2 = b2, W3 = w3, B3 = b3,
             InputSize = inputSize, HiddenSize1 = hiddenSize1,
             HiddenSize2 = hiddenSize2, OutputSize = outputSize, LearningRate = lr\<rparr>
     }"

text \<open>\<^verbatim>\<open>Clone\<close>; \<open>g0\<close> is the draw sequence of the generator seeded with 0.\<close>

definition Clone :: "(nat \<Rightarrow> real) \<Rightarrow> QNetwork \<Rightarrow> QNetwork option" where
  "Clone g0 n =
     do {
       clone \<leftarrow> NewQNetwork (InputSize n) (HiddenSize1 n) (HiddenSize2 n) (OutputSize n)
                  (LearningRate n) g0;
       CopyFrom clone n
     }"

text \<open>\<^verbatim>\<open>Max\<close>: \<^verbatim>\<open>values[0]\<close> panics on an empty slice.\<close>

fun Max_loop :: "real \<Rightarrow> vec \<Rightarrow> real" where
  "Max_loop maxVal [] = maxVal"
| "Max_loop maxVal (v # vs) = Max_loop (if v > maxVal then v else maxVal) vs"

definition Max_values :: "vec \<Rightarrow> real option" where
  "Max_values vals = (case vals of [] \<Rightarrow> None | v # vs \<Rightarrow> Some (Max_loop v vs))"

fun MaxIndex_loop :: "nat \<Rightarrow> real \<Rightarrow> nat \<Rightarrow> vec \<Rightarrow> nat" where
  "MaxIndex_loop maxIdx maxVal i [] = maxIdx"
| "MaxIndex_loop maxIdx maxVal i (v # vs) =
     (if v > maxVal then MaxIndex_loop i v (Suc i) vs
      else MaxIndex_loop maxIdx maxVal (Suc i) vs)"

definition MaxIndex :: "vec \<Rightarrow> nat option" where
  "MaxIndex vals = (case vals of [] \<Rightarrow> None | v # vs \<Rightarrow> Some (MaxIndex_loop 0 v 1 vs))"

section \<open>replay.go\<close>

text \<open>
  \<^verbatim>\<open>type Action int\<close> with its three constants; \<open>action_index\<close> is the conversion
  \<^verbatim>\<open>int(action)\<close>.
\<close>

datatype Action = GoStraight | TurnLeft | TurnRight

fun action_index :: "Action \<Rightarrow> int" where
  "action_index GoStraight = 0"
| "action_index TurnLeft = 1"
| "action_index TurnRight = 2"

record Experience =
  State :: vec
  Action :: Action
  Reward :: real
  NextState :: vec
  Done :: bool

text \<open>
  The fields \<^verbatim>\<open>capacity\<close>, \<^verbatim>\<open>position\<close> and \<^verbatim>\<open>size\<close> are private and only ever hold
  \<open>0\<close>, \<^verbatim>\<open>(position + 1) % capacity\<close> and \<^verbatim>\<open>size + 1\<close>, so they are naturals here;
  the generator of the buffer is the \<open>perm\<close> argument of \<open>Sample\<close>.
\<close>

record ReplayBuffer =
  buffer :: "Experience list"
  capacity :: nat
  position :: nat
  size :: nat

definition zeroExperience :: Experience where
  "zeroExperience =
     \<lparr>State = [], Action = GoStraight, Reward = 0, NextState = [], Done = False\<rparr>"

definition NewReplayBuffer :: "int \<Rightarrow> ReplayBuffer option" where
  "NewReplayBuffer cap =
     (if cap < 0 then None
      else Some \<lparr>buffer = replicate (nat cap) zeroExperience, capacity = nat cap,
                 position = 0, size = 0\<rparr>)"

definition Add :: "ReplayBuffer \<Rightarrow> Experience \<Rightarrow> ReplayBuffer option" where
  "Add rb ex =
     (let stateCopy = go_copy (replicate (length (State ex)) 0) (State ex);
          nextStateCopy = go_copy (replicate (length (NextState ex)) 0) (NextState ex)
      in if length (buffer rb) \<le> position rb then None
         else if capacity rb = 0 then None
         else Some (rb\<lparr>buffer := (buffer rb)[position rb :=
                          \<lparr>State = stateCopy, Action = Action ex, Reward = Reward ex,
                           NextState = nextStateCopy, Done = Done ex\<rparr>],
                        position := (position rb + 1) mod capacity rb,
                        size := (if size rb < capacity rb then size rb + 1 else size rb)\<rparr>))"

text \<open>
  \<^verbatim>\<open>Sample\<close>; \<open>perm\<close> is the slice \<^verbatim>\<open>rb.rng.Perm(rb.size)\<close>. \<^verbatim>\<open>make\<close> panics on a
  negative batch size, the slice expression on a \<open>perm\<close> that is too short, the read of
  \<^verbatim>\<open>rb.buffer[idx]\<close> on an index outside the buffer.
\<close>

definition Sample :: "ReplayBuffer \<Rightarrow> nat list \<Rightarrow> int \<Rightarrow> Experience list option" where
  "Sample rb perm batchSize =
     (let batchSize = (if batchSize > int (size rb) then int (size rb) else batchSize)
      in if batchSize < 0 then None
         else if length perm < nat batchSize then None
         else collect (\<lambda>i. idx (buffer rb) (int i)) (take (nat batchSize) perm))"

definition Size :: "ReplayBuffer \<Rightarrow> int" where
  "Size rb = int (size rb)"

definition IsFull :: "ReplayBuffer \<Rightarrow> bool" where
  "IsFull rb = (size rb = capacity rb)"

definition Clear :: "ReplayBuffer \<Rightarrow> ReplayBuffer" where
  "Clear rb = rb\<lparr>position := 0, size := 0\<rparr>"

section \<open>The game package: snake.go, collision.go and the game state\<close>

datatype Direction = Up | Down | Left | Right

fun dir_index :: "Direction \<Rightarrow> nat" where
  "dir_index Up = 0"
| "dir_index Down = 1"
| "dir_index Left = 2"
| "dir_index Right = 3"

fun Direction_TurnLeft :: "Direction \<Rightarrow> Direction" where
  "Direction_TurnLeft Up = Left"
| "Direction_TurnLeft Left = Down"
| "Direction_TurnLeft Down = Right"
| "Direction_TurnLeft Right = Up"

fun Direction_TurnRight :: "Direction \<Rightarrow> Direction" where
  "Direction_TurnRight Up = Right"
| "Direction_TurnRight Right = Down"
| "Direction_TurnRight Down = Left"
| "Direction_TurnRight Left = Up"

record Position =
  X :: int
  Y :: int

definition Position_Add :: "Position \<Rightarrow> int \<Rightarrow> int \<Rightarrow> Position" where
  "Position_Add p dx dy = \<lparr>X = X p + dx, Y = Y p + dy\<rparr>"

definition Equals :: "Position \<Rightarrow> Position \<Rightarrow> bool" where
  "Equals p other = (X p = X other \<and> Y p = Y other)"

record Snake =
  ID :: int
  Body :: "Position list"
  Direction :: Direction
  Alive :: bool
  Score :: int
  Grew :: bool

definition Head :: "Snake \<Rightarrow> Position option" where
  "Head s = (case Body s of [] \<Rightarrow> None | p # _ \<Rightarrow> Some p)"

definition Length :: "Snake \<Rightarrow> int" where
  "Length s = int (length (Body s))"

definition NextHead :: "Snake \<Rightarrow> Direction \<Rightarrow> Position option" where
  "NextHead s dir =
     do {
       head \<leftarrow> Head s;
       Some (case dir of
               Up \<Rightarrow> Position_Add head 0 (- 1)
             | Down \<Rightarrow> Position_Add head 0 1
             | Left \<Rightarrow> Position_Add head (- 1) 0
             | Right \<Rightarrow> Position_Add head 1 0)
     }"

fun ContainsPosition_loop :: "Position list \<Rightarrow> Position \<Rightarrow> bool" where
  "ContainsPosition_loop [] pos = False"
| "ContainsPosition_loop (b # bs) pos =
     (if Equals b pos then True else ContainsPosition_loop bs pos)"

definition ContainsPosition :: "Snake \<Rightarrow> Position \<Rightarrow> bool \<Rightarrow> bool" where
  "ContainsPosition s pos excludeHead =
     ContainsPosition_loop (drop (if excludeHead then 1 else 0) (Body s)) pos"

definition CheckWallCollision :: "Position \<Rightarrow> int \<Rightarrow> int \<Rightarrow> bool" where
  "CheckWallCollision pos width height =
     (X pos < 0 \<or> X pos \<ge> width \<or> Y pos < 0 \<or> Y pos \<ge> height)"

text \<open>\<^verbatim>\<open>snakes[i]\<close> on the array \<^verbatim>\<open>[2]*Snake\<close>.\<close>

definition snakeAt :: "Snake \<times> Snake \<Rightarrow> int \<Rightarrow> Snake option" where
  "snakeAt snakes i =
     (if i = 0 then Some (fst snakes) else if i = 1 then Some (snd snakes) else None)"

definition IsDangerPosition ::
    "Position \<Rightarrow> int \<Rightarrow> Snake \<times> Snake \<Rightarrow> int \<Rightarrow> int \<Rightarrow> bool option" where
  "IsDangerPosition pos snakeID snakes width height =
     (if CheckWallCollision pos width height then Some True
      else do {
        ownSnake \<leftarrow> snakeAt snakes snakeID;
        if ContainsPosition ownSnake pos True then Some True
        else do {
          otherSnake \<leftarrow> snakeAt snakes (1 - snakeID);
          if Alive otherSnake \<and> ContainsPosition otherSnake pos False then Some True
          else Some False
        }
      })"

definition ManhattanDistance :: "Position \<Rightarrow> Position \<Rightarrow> int" where
  "ManhattanDistance p1 p2 =
     (let dx = X p1 - X p2; dy = Y p1 - Y p2;
          dx = (if dx < 0 then - dx else dx);
          dy = (if dy < 0 then - dy else dy)
      in dx + dy)"

record Food =
  Position :: Position
  Active :: bool

record GameState =
  Width :: int
  Height :: int
  Snakes :: "Snake \<times> Snake"
  Food :: Food
  Turn :: int
  GameOver :: bool
  Winner :: int

section \<open>state.go\<close>

fun ActionToDirection :: "Direction \<Rightarrow> Action \<Rightarrow> Direction" where
  "ActionToDirection currentDir GoStraight = currentDir"
| "ActionToDirection currentDir TurnLeft = Direction_TurnLeft currentDir"
| "ActionToDirection currentDir TurnRight = Direction_TurnRight currentDir"

definition boolToFloat :: "bool \<Rightarrow> real" where
  "boolToFloat b = (if b then 1 else 0)"

definition isDanger :: "Position \<Rightarrow> int \<Rightarrow> GameState \<Rightarrow> bool option" where
  "isDanger pos snakeID state =
     IsDangerPosition pos snakeID (Snakes state) (Width state) (Height state)"

definition isDangerExtended ::
    "Position \<Rightarrow> Position \<Rightarrow> int \<Rightarrow> GameState \<Rightarrow> bool option" where
  "isDangerExtended step1 step2 snakeID state =
     (case isDanger step1 snakeID state of
        None \<Rightarrow> None
      | Some True \<Rightarrow> Some True
      | Some False \<Rightarrow> isDanger step2 snakeID state)"

text \<open>\<^verbatim>\<open>&game.Snake{Body: []game.Position{p}}\<close>: every other field has its zero value.\<close>

definition tempSnake :: "Position \<Rightarrow> Snake" where
  "tempSnake p = \<lparr>ID = 0, Body = [p], Direction = Up, Alive = False, Score = 0, Grew = False\<rparr>"

text \<open>The loop of feature 16 over the opponent's body.\<close>

fun minDist_loop :: "Position \<Rightarrow> real \<Rightarrow> Position list \<Rightarrow> real" where
  "minDist_loop head minDist [] = minDist"
| "minDist_loop head minDist (segment # body) =
     (let dist = real_of_int (ManhattanDistance head segment)
      in minDist_loop head (if dist < minDist then dist else minDist) body)"

text \<open>
  \<^verbatim>\<open>EncodeState\<close>. The 22 features are listed in index order; a block that the source
  leaves untouched stays at the zeros of \<^verbatim>\<open>make\<close>.
\<close>

definition EncodeState :: "GameState \<Rightarrow> int \<Rightarrow> vec option" where
  "EncodeState state snakeID =
     do {
       snake \<leftarrow> snakeAt (Snakes state) snakeID;
       otherSnake \<leftarrow> snakeAt (Snakes state) (1 - snakeID);
       if \<not> Alive snake then Some (replicate 22 0)
       else do {
         head \<leftarrow> Head snake;
         let dir = Direction snake;
         straightPos \<leftarrow> NextHead snake dir;
         leftPos \<leftarrow> NextHead snake (Direction_TurnLeft dir);
         rightPos \<leftarrow> NextHead snake (Direction_TurnRight dir);
         d0 \<leftarrow> isDanger straightPos snakeID state;
         d1 \<leftarrow> isDanger leftPos snakeID state;
         d2 \<leftarrow> isDanger rightPos snakeID state;
         let dirBlock = (replicate 4 0)[dir_index dir := 1];
         let foodBlock =
           (if Active (Food state)
            then let foodPos = Position (Food state)
                 in [boolToFloat (Y foodPos < Y head), boolToFloat (Y foodPos > Y head),
                     boolToFloat (X foodPos < X head), boolToFloat (X foodPos > X head)]
            else replicate 4 0);
         oppHead \<leftarrow> (if Alive otherSnake then map_option Some (Head otherSnake)
                      else Some None);
         let maxDist = real_of_int (Width state + Height state);
         let oppBlock =
           (case oppHead of
              None \<Rightarrow> replicate 4 0
            | Some oh \<Rightarrow>
                [boolToFloat (Y oh < Y head), boolToFloat (Y oh > Y head),
                 boolToFloat (X oh < X head), boolToFloat (X oh > X head)]);
         let f15 =
           (case oppHead of
              None \<Rightarrow> 0
            | Some oh \<Rightarrow> 1 - real_of_int (ManhattanDistance head oh) / maxDist);
         let f16 =
           (if Alive otherSnake
            then 1 - minDist_loop head maxDist (Body otherSnake) / maxDist
            else 0);
         let maxLength = real_of_int (go_quot (Width state * Height state) 2);
         let f17 = real_of_int (Length snake) / maxLength;
         let f18 = (if Alive otherSnake then real_of_int (Length otherSnake) / maxLength else 0);
         straight2 \<leftarrow> NextHead (tempSnake straightPos) dir;
         left2 \<leftarrow> NextHead (tempSnake leftPos) (Direction_TurnLeft dir);
         right2 \<leftarrow> NextHead (tempSnake rightPos) (Direction_TurnRight dir);
         e0 \<leftarrow> isDangerExtended straightPos straight2 snakeID state;
         e1 \<leftarrow> isDangerExtended leftPos left2 snakeID state;
         e2 \<leftarrow> isDangerExtended rightPos right2 snakeID state;
         Some ([boolToFloat d0, boolToFloat d1, boolToFloat d2] @ dirBlock @ foodBlock
               @ oppBlock
               @ [f15, f16, f17, f18, boolToFloat e0, boolToFloat e1, boolToFloat e2])
       }
     }"

section \<open>The agent\<close>

record DQNAgent =
  PolicyNet :: QNetwork
  TargetNet :: QNetwork
  ReplayBuffer :: ReplayBuffer
  Gamma :: real
  Epsilon :: real
  EpsilonMin :: real
  EpsilonDecay :: real
  BatchSize :: int
  StepCount :: int
  TargetUpdate :: int
  TrainInterval :: int

text \<open>
  The configuration record of the \<^verbatim>\<open>config\<close> package, with the fields that the
  constructor of the agent reads.
\<close>

record TrainingConfig =
  cfg_InputSize :: int
  cfg_HiddenSize1 :: int
  cfg_HiddenSize2 :: int
  cfg_OutputSize :: int
  cfg_LearningRate :: real
  cfg_Gamma :: real
  cfg_EpsilonStart :: real
  cfg_EpsilonMin :: real
  cfg_EpsilonDecay :: real
  cfg_BatchSize :: int
  cfg_BufferSize :: int
  cfg_TargetUpdate :: int

text \<open>
  \<^verbatim>\<open>NewDQNAgent\<close>; \<open>g\<close> is the draw sequence of the generator that initialises the policy
  network, \<open>g0\<close> that of the generator seeded with 0 inside \<^verbatim>\<open>Clone\<close>.
\<close>

definition NewDQNAgent :: "TrainingConfig \<Rightarrow> (nat \<Rightarrow> real) \<Rightarrow> (nat \<Rightarrow> real) \<Rightarrow> DQNAgent option" where
  "NewDQNAgent cfg g g0 =
     do {
       policyNet \<leftarrow> NewQNetwork (cfg_InputSize cfg) (cfg_HiddenSize1 cfg) (cfg_HiddenSize2 cfg)
                      (cfg_OutputSize cfg) (cfg_LearningRate cfg) g;
       targetNet \<leftarrow> Clone g0 policyNet;
       replayBuffer \<leftarrow> NewReplayBuffer (cfg_BufferSize cfg);
       Some \<lparr>PolicyNet = policyNet, TargetNet = targetNet, ReplayBuffer = replayBuffer,
             Gamma = cfg_Gamma cfg, Epsilon = cfg_EpsilonStart cfg,
             EpsilonMin = cfg_EpsilonMin cfg, EpsilonDecay = cfg_EpsilonDecay cfg,
             BatchSize = cfg_BatchSize cfg, StepCount = 0,
             TargetUpdate = cfg_TargetUpdate cfg, TrainInterval = 4\<rparr>
     }"

definition Remember :: "DQNAgent \<Rightarrow> vec \<Rightarrow> Action \<Rightarrow> real \<Rightarrow> vec \<Rightarrow> bool \<Rightarrow> DQNAgent option" where
  "Remember a st action reward nextState done =
     do {
       rb \<leftarrow> Add (ReplayBuffer a)
               \<lparr>State = st, Action = action, Reward = reward, NextState = nextState,
                Done = done\<rparr>;
       Some (a\<lparr>ReplayBuffer := rb\<rparr>)
     }"

text \<open>The TD target that \<^verbatim>\<open>trainOnExperience\<close> computes first.\<close>

definition targetQ_of :: "DQNAgent \<Rightarrow> Experience \<Rightarrow> real option" where
  "targetQ_of a ex =
     (if Done ex then Some (Reward ex)
      else do {
        nextQValues \<leftarrow> Forward (TargetNet a) (NextState ex);
        maxNextQ \<leftarrow> Max_values nextQValues;
        Some (Reward ex + Gamma a * maxNextQ)
      })"

definition trainOnExperience :: "DQNAgent \<Rightarrow> Experience \<Rightarrow> (DQNAgent \<times> real) option" where
  "trainOnExperience a ex =
     do {
       targetQ \<leftarrow> targetQ_of a ex;
       (output, cache) \<leftarrow> ForwardWithCache (PolicyNet a) (State ex);
       currentQ \<leftarrow> idx output (action_index (Action ex));
       let loss = (currentQ - targetQ) * (currentQ - targetQ) * 0.5;
       net \<leftarrow> Backward (PolicyNet a) cache output (action_index (Action ex)) targetQ;
       Some (a\<lparr>PolicyNet := net\<rparr>, loss)
     }"

definition UpdateTargetNetwork :: "DQNAgent \<Rightarrow> DQNAgent option" where
  "UpdateTargetNetwork a =
     do {
       t \<leftarrow> CopyFrom (TargetNet a) (PolicyNet a);
       Some (a\<lparr>TargetNet := t\<rparr>)
     }"

text \<open>The loop \<^verbatim>\<open>for _, exp := range batch\<close> of \<^verbatim>\<open>Train\<close> with its accumulator.\<close>

fun Train_loop :: "DQNAgent \<Rightarrow> Experience list \<Rightarrow> real \<Rightarrow> (DQNAgent \<times> real) option" where
  "Train_loop a [] totalLoss = Some (a, totalLoss)"
| "Train_loop a (ex # batch) totalLoss =
     (case trainOnExperience a ex of
        None \<Rightarrow> None
      | Some (a', loss) \<Rightarrow> Train_loop a' batch (totalLoss + loss))"

text \<open>
  \<^verbatim>\<open>Train\<close>; \<open>perm\<close> is what \<^verbatim>\<open>rng.Perm\<close> returns inside \<^verbatim>\<open>Sample\<close>. The result is the
  agent after the call and the returned loss. \<^verbatim>\<open>%\<close> panics on a zero divisor.
\<close>

definition Train :: "DQNAgent \<Rightarrow> nat list \<Rightarrow> (DQNAgent \<times> real) option" where
  "Train a perm =
     (let a = a\<lparr>StepCount := wrap64 (StepCount a + 1)\<rparr>
      in if Size (ReplayBuffer a) < BatchSize a then Some (a, 0)
         else if TrainInterval a = 0 then None
         else if go_rem (StepCount a) (TrainInterval a) \<noteq> 0 then Some (a, 0)
         else do {
           batch \<leftarrow> Sample (ReplayBuffer a) perm (BatchSize a);
           (a, totalLoss) \<leftarrow> Train_loop a batch 0;
           if TargetUpdate a = 0 then None
           else do {
             a \<leftarrow> (if go_rem (StepCount a) (TargetUpdate a) = 0 then UpdateTargetNetwork a
                   else Some a);
             Some (a, totalLoss / real (length batch))
           }
         })"

definition DecayEpsilon :: "DQNAgent \<Rightarrow> DQNAgent" where
  "DecayEpsilon a =
     (let a = a\<lparr>Epsilon := Epsilon a * EpsilonDecay a\<rparr>
      in if Epsilon a < EpsilonMin a then a\<lparr>Epsilon := EpsilonMin a\<rparr> else a)"

definition SetEpsilon :: "DQNAgent \<Rightarrow> real \<Rightarrow> DQNAgent" where
  "SetEpsilon a eps = a\<lparr>Epsilon := eps\<rparr>"

record AgentState =
  as_Epsilon :: real
  as_StepCount :: int

definition GetState :: "DQNAgent \<Rightarrow> AgentState" where
  "GetState a = \<lparr>as_Epsilon = Epsilon a, as_StepCount = StepCount a\<rparr>"

definition SetState :: "DQNAgent \<Rightarrow> AgentState \<Rightarrow> DQNAgent" where
  "SetState a st = a\<lparr>Epsilon := as_Epsilon st, StepCount := as_StepCount st\<rparr>"

subsection \<open>Loading\<close>

record NetworkWeights =
  nw_W1 :: matrix
  nw_B1 :: vec
  nw_W2 :: matrix
  nw_B2 :: vec
  nw_W3 :: matrix
  nw_B3 :: vec
  nw_InputSize :: int
  nw_HiddenSize1 :: int
  nw_HiddenSize2 :: int
  nw_OutputSize :: int
  nw_LearningRate :: real

record legacyNetworkWeights =
  lw_W1 :: matrix
  lw_B1 :: matrix
  lw_B1Vec :: vec
  lw_W2 :: matrix
  lw_B2 :: matrix
  lw_B2Vec :: vec
  lw_W3 :: matrix
  lw_B3 :: matrix
  lw_B3Vec :: vec
  lw_InputSize :: int
  lw_HiddenSize1 :: int
  lw_HiddenSize2 :: int
  lw_OutputSize :: int
  lw_LearningRate :: real

text \<open>
  \<^verbatim>\<open>LoadNetwork\<close>. \<open>os_Open\<close> is the file system (\<open>Inl\<close> the error of \<^verbatim>\<open>os.Open\<close>),
  \<open>decode_new\<close> and \<open>decode_legacy\<close> are \<^verbatim>\<open>gob\<close> decoding of a file's content into the
  current and into the legacy layout. After \<^verbatim>\<open>file.Seek(0, 0)\<close> the second decoder reads
  the same content; the error returned is that of the second decoder.
\<close>

definition LoadNetwork ::
    "(string \<Rightarrow> 'e + 'f) \<Rightarrow> ('f \<Rightarrow> 'e + NetworkWeights) \<Rightarrow> ('f \<Rightarrow> 'e + legacyNetworkWeights)
     \<Rightarrow> string \<Rightarrow> 'e + QNetwork" where
  "LoadNetwork os_Open decode_new decode_legacy path =
     (case os_Open path of
        Inl err \<Rightarrow> Inl err
      | Inr file \<Rightarrow>
          (case (case decode_new file of
                   Inr weights \<Rightarrow> Inr weights
                 | Inl _ \<Rightarrow>
                     (case decode_legacy file of
                        Inl err \<Rightarrow> Inl err
                      | Inr legacyWeights \<Rightarrow>
                          Inr \<lparr>nw_W1 = lw_W1 legacyWeights, nw_B1 = lw_B1Vec legacyWeights,
                               nw_W2 = lw_W2 legacyWeights, nw_B2 = lw_B2Vec legacyWeights,
                               nw_W3 = lw_W3 legacyWeights, nw_B3 = lw_B3Vec legacyWeights,
                               nw_InputSize = lw_InputSize legacyWeights,
                               nw_HiddenSize1 = lw_HiddenSize1 legacyWeights,
                               nw_HiddenSize2 = lw_HiddenSize2 legacyWeights,
                               nw_OutputSize = lw_OutputSize legacyWeights,
                               nw_LearningRate = lw_LearningRate legacyWeights\<rparr>)) of
             Inl err \<Rightarrow> Inl err
           | Inr weights \<Rightarrow>
               Inr \<lparr>W1 = nw_W1 weights, B1 = nw_B1 weights, W2 = nw_W2 weights,
                    B2 = nw_B2 weights, W3 = nw_W3 weights, B3 = nw_B3 weights,
                    InputSize = nw_InputSize weights, HiddenSize1 = nw_HiddenSize1 weights,
                    HiddenSize2 = nw_HiddenSize2 weights, OutputSize = nw_OutputSize weights,
                    LearningRate = nw_LearningRate weights\<rparr>))"

text \<open>
  \<^verbatim>\<open>DQNAgent.Load\<close>: the agent after the call and the returned error (\<open>None\<close> for
  \<^verbatim>\<open>nil\<close>); the outer \<open>None\<close> is a panic inside \<^verbatim>\<open>Clone\<close>.
\<close>

definition Load ::
    "(string \<Rightarrow> 'e + 'f) \<Rightarrow> ('f \<Rightarrow> 'e + NetworkWeights) \<Rightarrow> ('f \<Rightarrow> 'e + legacyNetworkWeights)
     \<Rightarrow> (nat \<Rightarrow> real) \<Rightarrow> DQNAgent \<Rightarrow> string \<Rightarrow> (DQNAgent \<times> 'e option) option" where
  "Load os_Open decode_new decode_legacy g0 a path =
     (case LoadNetwork os_Open decode_new decode_legacy path of
        Inl err \<Rightarrow> Some (a, Some err)
      | Inr net \<Rightarrow>
          (case Clone g0 net of
             None \<Rightarrow> None
           | Some t \<Rightarrow> Some (a\<lparr>PolicyNet := net, TargetNet := t\<rparr>, None)))"

section \<open>Drivers, specification-side notions and concrete inputs\<close>

text \<open>A sequence of \<^verbatim>\<open>Add\<close> calls, in order.\<close>

fun Add_all :: "ReplayBuffer \<Rightarrow> Experience list \<Rightarrow> ReplayBuffer option" where
  "Add_all rb [] = Some rb"
| "Add_all rb (x # xs) = (case Add rb x of None \<Rightarrow> None | Some rb' \<Rightarrow> Add_all rb' xs)"

text \<open>
  A network with one unit per layer, all weights 1, all biases 0 and learning rate
  \<open>1/2\<close>, and a terminal transition with reward \<open>-1\<close>.
\<close>

definition net0 :: QNetwork where
  "net0 = \<lparr>W1 = [[1]], B1 = [0], W2 = [[1]], B2 = [0], W3 = [[1]], B3 = [0],
           InputSize = 1, HiddenSize1 = 1, HiddenSize2 = 1, OutputSize = 1,
           LearningRate = 1 / 2\<rparr>"

definition ex0 :: Experience where
  "ex0 = \<lparr>State = [1], Action = GoStraight, Reward = - 1, NextState = [1], Done = True\<rparr>"

definition ex1 :: Experience where
  "ex1 = \<lparr>State = [2], Action = GoStraight, Reward = 0, NextState = [1], Done = False\<rparr>"

definition ex2 :: Experience where
  "ex2 = \<lparr>State = [3], Action = GoStraight, Reward = 1, NextState = [2], Done = False\<rparr>"

text \<open>
  An agent with the default hyperparameters, batch size 1 and a buffer of capacity 2
  holding \<open>ex0\<close>; the target is synchronised every 6 steps.
\<close>

definition agent0 :: DQNAgent where
  "agent0 = \<lparr>PolicyNet = net0, TargetNet = net0,
     ReplayBuffer = \<lparr>buffer = [ex0, zeroExperience], capacity = 2, position = 1, size = 1\<rparr>,
     Gamma = 99 / 100, Epsilon = 1, EpsilonMin = 1 / 100, EpsilonDecay = 995 / 1000,
     BatchSize = 1, StepCount = 0, TargetUpdate = 6, TrainInterval = 4\<rparr>"

text \<open>
  The scenario of the specification: buffer capacity 10, batch size 4, three
  transitions inserted.
\<close>

definition rb3 :: ReplayBuffer where
  "rb3 = \<lparr>buffer = [ex0, ex1, ex2] @ replicate 7 zeroExperience, capacity = 10,
          position = 3, size = 3\<rparr>"

definition agent3 :: DQNAgent where
  "agent3 = agent0\<lparr>ReplayBuffer := rb3, BatchSize := 4, TargetUpdate := 1000\<rparr>"

text \<open>
  The TD target in the words of the specification: the reward alone for a terminal
  transition, otherwise the reward plus \<open>Gamma\<close> times the largest output of the target
  network on the next state.
\<close>

definition spec_target :: "DQNAgent \<Rightarrow> Experience \<Rightarrow> real option" where
  "spec_target a ex =
     (if Done ex then Some (Reward ex)
      else (case Forward (TargetNet a) (NextState ex) of
              None \<Rightarrow> None
            | Some q \<Rightarrow> if q = [] then None else Some (Reward ex + Gamma a * Max (set q))))"

text \<open>One backward pass of the network \<open>pn\<close> on a transition, towards its TD target.\<close>

definition spec_update :: "DQNAgent \<Rightarrow> QNetwork \<Rightarrow> Experience \<Rightarrow> QNetwork option" where
  "spec_update a pn ex =
     (case spec_target a ex of
        None \<Rightarrow> None
      | Some tq \<Rightarrow>
          (case ForwardWithCache pn (State ex) of
             None \<Rightarrow> None
           | Some (out, cache) \<Rightarrow> Backward pn cache out (action_index (Action ex)) tq))"

text \<open>
  The squared TD error of the network \<open>pn\<close> on a transition: the output of \<open>pn\<close> for
  the action taken, minus the TD target, squared.
\<close>

definition spec_sq_error :: "DQNAgent \<Rightarrow> QNetwork \<Rightarrow> Experience \<Rightarrow> real option" where
  "spec_sq_error a pn ex =
     (case spec_target a ex of
        None \<Rightarrow> None
      | Some tq \<Rightarrow>
          (case Forward pn (State ex) of
             None \<Rightarrow> None
           | Some out \<Rightarrow>
               map_option (\<lambda>q. (q - tq)\<^sup>2) (idx out (action_index (Action ex)))))"

text \<open>The shape of a network: the lengths of the rows of its matrices and of its biases.\<close>

definition shape :: "QNetwork \<Rightarrow> (nat list \<times> nat) \<times> (nat list \<times> nat) \<times> (nat list \<times> nat)" where
  "shape n = ((map length (W1 n), length (B1 n)), (map length (W2 n), length (B2 n)),
              (map length (W3 n), length (B3 n)))"

text \<open>Repeated calls of \<^verbatim>\<open>Train\<close>, each drawing the permutation \<open>perm\<close>.\<close>

fun Train_n :: "nat \<Rightarrow> DQNAgent \<Rightarrow> nat list \<Rightarrow> DQNAgent option" where
  "Train_n 0 a perm = Some a"
| "Train_n (Suc k) a perm =
     (case Train a perm of None \<Rightarrow> None | Some (a', loss) \<Rightarrow> Train_n k a' perm)"

text \<open>
  \<open>net0\<close> after one backward pass on \<open>ex0\<close>; \<open>agent0\<close> after its fourth call of
  \<^verbatim>\<open>Train\<close> (the first that trains), and after its sixth.
\<close>

definition net1 :: QNetwork where
  "net1 = \<lparr>W1 = [[0]], B1 = [- 1], W2 = [[0]], B2 = [- 1], W3 = [[0]], B3 = [- 1],
           InputSize = 1, HiddenSize1 = 1, HiddenSize2 = 1, OutputSize = 1,
           LearningRate = 1 / 2\<rparr>"

definition agent0_trained :: "int \<Rightarrow> DQNAgent" where
  "agent0_trained k = agent0\<lparr>PolicyNet := net1, StepCount := k\<rparr>"

text \<open>
  The invariant of the data model: each weight matrix has as many rows as the previous
  layer is wide and rows as long as the bias of its layer.
\<close>

definition well_shaped :: "QNetwork \<Rightarrow> bool" where
  "well_shaped n \<longleftrightarrow>
     length (W1 n) = nat (InputSize n) \<and> list_all (\<lambda>w. length w = length (B1 n)) (W1 n)
   \<and> length (W2 n) = length (B1 n) \<and> list_all (\<lambda>w. length w = length (B2 n)) (W2 n)
   \<and> length (W3 n) = length (B2 n) \<and> list_all (\<lambda>w. length w = length (B3 n)) (W3 n)"

text \<open>\<open>net0\<close> with input width 2.\<close>

definition net2 :: QNetwork where
  "net2 = net0\<lparr>W1 := [[1], [1]], InputSize := 2\<rparr>"

text \<open>
  The cell \<open>k\<close> steps away from \<open>p\<close> in direction \<open>d\<close> (\<open>y\<close> grows downwards), and the
  two-step danger of the specification: the cell one step away or the cell two steps
  away in that direction is dangerous.
\<close>

definition spec_cell :: "Position \<Rightarrow> Direction \<Rightarrow> int \<Rightarrow> Position" where
  "spec_cell p d k =
     (case d of
        Up \<Rightarrow> \<lparr>X = X p, Y = Y p - k\<rparr>
      | Down \<Rightarrow> \<lparr>X = X p, Y = Y p + k\<rparr>
      | Left \<Rightarrow> \<lparr>X = X p - k, Y = Y p\<rparr>
      | Right \<Rightarrow> \<lparr>X = X p + k, Y = Y p\<rparr>)"

definition spec_dangerous :: "GameState \<Rightarrow> int \<Rightarrow> Position \<Rightarrow> bool" where
  "spec_dangerous st sid p \<longleftrightarrow> isDanger p sid st = Some True"

definition spec_danger2 :: "GameState \<Rightarrow> int \<Rightarrow> Position \<Rightarrow> Direction \<Rightarrow> bool" where
  "spec_danger2 st sid head d \<longleftrightarrow>
     spec_dangerous st sid (spec_cell head d 1) \<or> spec_dangerous st sid (spec_cell head d 2)"

text \<open>
  A board of width 5 and height 4. Snake 0 heads right at \<open>(2, 2)\<close>; the opponent
  occupies \<open>(4, 2)\<close> and \<open>(4, 1)\<close>.
\<close>

definition game0 :: GameState where
  "game0 = \<lparr>Width = 5, Height = 4,
     Snakes = (\<lparr>ID = 0, Body = [\<lparr>X = 2, Y = 2\<rparr>, \<lparr>X = 1, Y = 2\<rparr>, \<lparr>X = 0, Y = 2\<rparr>],
                Direction = Right, Alive = True, Score = 0, Grew = False\<rparr>,
               \<lparr>ID = 1, Body = [\<lparr>X = 4, Y = 2\<rparr>, \<lparr>X = 4, Y = 1\<rparr>],
                Direction = Down, Alive = True, Score = 0, Grew = False\<rparr>),
     Food = \<lparr>Position = \<lparr>X = 0, Y = 0\<rparr>, Active = True\<rparr>,
     Turn = 0, GameOver = False, Winner = - 1\<rparr>"

text \<open>
  An agent with discount \<open>1/2\<close> and batch size 2 whose buffer holds \<open>ex0\<close> and the
  non-terminal \<open>ex1\<close>, one call before it trains; \<open>netA\<close> is \<open>net0\<close> after the backward
  pass on \<open>ex1\<close>, and \<open>netB\<close> is \<open>netA\<close> after the backward pass on \<open>ex0\<close>.
\<close>

definition agentB :: DQNAgent where
  "agentB = agent0\<lparr>ReplayBuffer := \<lparr>buffer = [ex0, ex1], capacity = 2, position = 0, size = 2\<rparr>,
                    Gamma := 1 / 2, BatchSize := 2, StepCount := 3\<rparr>"

definition netA :: QNetwork where
  "netA = \<lparr>W1 = [[- (1 / 2)]], B1 = [- (3 / 4)], W2 = [[- (1 / 2)]], B2 = [- (3 / 4)],
           W3 = [[- (1 / 2)]], B3 = [- (3 / 4)],
           InputSize = 1, HiddenSize1 = 1, HiddenSize2 = 1, OutputSize = 1,
           LearningRate = 1 / 2\<rparr>"

definition netB :: QNetwork where
  "netB = netA\<lparr>B3 := [- (7 / 8)]\<rparr>"

section \<open>Auxiliary facts\<close>

lemma wrap64_id: "- (2 ^ 63) \<le> x \<Longrightarrow> x < 2 ^ 63 \<Longrightarrow> wrap64 x = x"
  by (simp add: wrap64_def)

lemma go_rem_zero_iff: "go_rem a b = 0 \<longleftrightarrow> \<bar>b\<bar> dvd \<bar>a\<bar>"
  by (auto simp: go_rem_def sgn_if mod_eq_0_iff_dvd)

lemma trainOnExperience_frame:
  "trainOnExperience a ex = Some (a', l) \<Longrightarrow> \<exists>net. a' = a\<lparr>PolicyNet := net\<rparr>"
  by (auto simp: trainOnExperience_def Let_def split: bind_splits prod.splits)

lemma Train_loop_frame:
  "Train_loop a batch t = Some (a', l) \<Longrightarrow> \<exists>net. a' = a\<lparr>PolicyNet := net\<rparr>"
proof (induction batch arbitrary: a t)
  case Nil
  then have "a' = a\<lparr>PolicyNet := PolicyNet a\<rparr>" by simp
  then show ?case by blast
next
  case (Cons ex batch)
  from Cons.prems obtain a1 l1 where s: "trainOnExperience a ex = Some (a1, l1)"
    and r: "Train_loop a1 batch (t + l1) = Some (a', l)"
    by (auto split: option.splits)
  from trainOnExperience_frame [OF s] obtain n1 where "a1 = a\<lparr>PolicyNet := n1\<rparr>" by blast
  moreover from Cons.IH [OF r] obtain n2 where "a' = a1\<lparr>PolicyNet := n2\<rparr>" by blast
  ultimately have "a' = a\<lparr>PolicyNet := n2\<rparr>" by simp
  then show ?case by blast
qed

lemma UpdateTargetNetwork_frame:
  "UpdateTargetNetwork a = Some a' \<Longrightarrow> \<exists>t. a' = a\<lparr>TargetNet := t\<rparr>"
  by (auto simp: UpdateTargetNetwork_def split: bind_splits)

text \<open>
  What a call of \<^verbatim>\<open>Train\<close> that returns has done: either nothing but the increment, or
  the loop over the sampled batch followed by the possible synchronisation.
\<close>

lemma Train_cases:
  assumes "Train a perm = Some (a', loss)"
  obtains (skip) "a' = a\<lparr>StepCount := wrap64 (StepCount a + 1)\<rparr>" "loss = 0"
      "Size (ReplayBuffer a) < BatchSize a
       \<or> go_rem (wrap64 (StepCount a + 1)) (TrainInterval a) \<noteq> 0"
  | (train) batch a2 tot where
      "\<not> Size (ReplayBuffer a) < BatchSize a"
      "go_rem (wrap64 (StepCount a + 1)) (TrainInterval a) = 0"
      "Sample (ReplayBuffer a) perm (BatchSize a) = Some batch"
      "Train_loop (a\<lparr>StepCount := wrap64 (StepCount a + 1)\<rparr>) batch 0 = Some (a2, tot)"
      "loss = tot / real (length batch)"
      "if go_rem (StepCount a2) (TargetUpdate a2) = 0 then UpdateTargetNetwork a2 = Some a'
       else a' = a2"
  using assms
  by (auto simp: Train_def Let_def split: if_splits bind_splits prod.splits)

lemma Train_StepCount:
  assumes "Train a perm = Some (a', loss)"
  shows "StepCount a' = wrap64 (StepCount a + 1)"
  using assms
proof (cases rule: Train_cases)
  case skip
  then show ?thesis by simp
next
  case (train batch a2 tot)
  from Train_loop_frame [OF train(4)] obtain n where
    a2: "a2 = a\<lparr>StepCount := wrap64 (StepCount a + 1), PolicyNet := n\<rparr>" by auto
  show ?thesis
  proof (cases "go_rem (StepCount a2) (TargetUpdate a2) = 0")
    case True
    with train(6) have "UpdateTargetNetwork a2 = Some a'" by simp
    from UpdateTargetNetwork_frame [OF this] a2 show ?thesis by auto
  next
    case False
    with train(6) a2 show ?thesis by simp
  qed
qed

lemma collect_idx:
  "\<forall>i\<in>set js. i < length xs \<Longrightarrow>
     collect (\<lambda>i. idx xs (int i)) js = Some (map (\<lambda>i. xs ! i) js)"
  by (induction js) (auto simp: idx_def)

lemma go_copy_fresh: "go_copy (replicate (length s) z) s = s"
  by (simp add: go_copy_def)

lemma Add_eq:
  "Add rb ex = (if length (buffer rb) \<le> position rb \<or> capacity rb = 0 then None
     else Some (rb\<lparr>buffer := (buffer rb)[position rb := ex],
                  position := (position rb + 1) mod capacity rb,
                  size := (if size rb < capacity rb then size rb + 1 else size rb)\<rparr>))"
  by (cases ex) (simp add: Add_def go_copy_fresh Let_def)

lemma Add_all_snoc:
  "Add_all rb (xs @ [x]) = (case Add_all rb xs of None \<Rightarrow> None | Some rb' \<Rightarrow> Add rb' x)"
  by (induction xs arbitrary: rb) (auto split: option.splits)

lemma mod_window_neq:
  fixes j n c :: nat
  assumes "j < n" "n < j + c"
  shows "j mod c \<noteq> n mod c"
proof
  assume "j mod c = n mod c"
  then have "(n - j) mod c = 0"
    using assms(1) by (metis mod_eq_dvd_iff_nat less_imp_le_nat dvd_imp_mod_0)
  moreover have "0 < n - j" "n - j < c" using assms by auto
  ultimately show False by simp
qed

text \<open>
  The state of a fresh buffer of capacity \<open>c\<close> after the items \<open>xs\<close> have been added:
  item number \<open>j\<close> of the last \<open>c\<close> items sits in slot \<open>j mod c\<close>.
\<close>

lemma Add_all_invariant:
  assumes "0 < c"
  shows "\<exists>rb. Add_all \<lparr>buffer = replicate c zeroExperience, capacity = c, position = 0,
                        size = 0\<rparr> xs = Some rb
     \<and> length (buffer rb) = c \<and> capacity rb = c
     \<and> size rb = min (length xs) c
     \<and> position rb = length xs mod c
     \<and> (\<forall>j<length xs. length xs - c \<le> j \<longrightarrow> buffer rb ! (j mod c) = xs ! j)"
proof (induction xs rule: rev_induct)
  case Nil
  then show ?case using assms by simp
next
  case (snoc x xs)
  then obtain rb where
    rb: "Add_all \<lparr>buffer = replicate c zeroExperience, capacity = c, position = 0,
                   size = 0\<rparr> xs = Some rb"
    and inv: "length (buffer rb) = c" "capacity rb = c" "size rb = min (length xs) c"
      "position rb = length xs mod c"
      "\<forall>j<length xs. length xs - c \<le> j \<longrightarrow> buffer rb ! (j mod c) = xs ! j"
    by blast
  let ?rb' = "rb\<lparr>buffer := (buffer rb)[position rb := x],
                  position := (position rb + 1) mod capacity rb,
                  size := (if size rb < capacity rb then size rb + 1 else size rb)\<rparr>"
  have pos: "position rb < c" using inv(4) assms by simp
  have add: "Add rb x = Some ?rb'"
    using inv(1,2) pos assms by (simp add: Add_eq)
  have "Add_all \<lparr>buffer = replicate c zeroExperience, capacity = c, position = 0,
                  size = 0\<rparr> (xs @ [x]) = Some ?rb'"
    by (simp add: Add_all_snoc rb add)
  moreover have "length (buffer ?rb') = c" "capacity ?rb' = c" using inv by simp_all
  moreover have "size ?rb' = min (length (xs @ [x])) c" using inv by auto
  moreover have "position ?rb' = length (xs @ [x]) mod c"
    using inv by (simp add: mod_Suc_eq)
  moreover have "\<forall>j<length (xs @ [x]). length (xs @ [x]) - c \<le> j
      \<longrightarrow> buffer ?rb' ! (j mod c) = (xs @ [x]) ! j"
  proof (intro allI impI)
    fix j assume j: "j < length (xs @ [x])" "length (xs @ [x]) - c \<le> j"
    show "buffer ?rb' ! (j mod c) = (xs @ [x]) ! j"
    proof (cases "j = length xs")
      case True
      then show ?thesis using inv(1,4) pos by simp
    next
      case False
      with j have jl: "j < length xs" by simp
      from j(2) have "length xs < j + c" by simp
      with jl have "j mod c \<noteq> length xs mod c" by (rule mod_window_neq)
      moreover have "length xs - c \<le> j" using j(2) by simp
      ultimately show ?thesis using inv(4,5) jl by (simp add: nth_append)
    qed
  qed
  ultimately show ?case by blast
qed

lemma Max_loop_Max: "Max_loop m vs = Max (insert m (set vs))"
proof (induction vs arbitrary: m)
  case Nil
  then show ?case by simp
next
  case (Cons v vs)
  have "Max (insert (max m v) (set vs)) = Max (insert m (insert v (set vs)))"
    by (cases "set vs = {}") (simp_all add: max.assoc)
  moreover have "(if v > m then v else m) = max m v" by (simp add: max_def)
  ultimately show ?case using Cons.IH by simp
qed

lemma Max_values_Max: "Max_values q = (if q = [] then None else Some (Max (set q)))"
  by (cases q) (simp_all add: Max_values_def Max_loop_Max)

lemma targetQ_of_spec: "targetQ_of a ex = spec_target a ex"
  by (simp add: targetQ_of_def spec_target_def Max_values_Max split: option.splits bind_splits)

lemma ForwardWithCache_Forward:
  "ForwardWithCache n x = Some (out, c) \<Longrightarrow> Forward n x = Some out"
  by (auto simp: ForwardWithCache_def Forward_def split: bind_splits)

lemma spec_target_PolicyNet: "spec_target (a\<lparr>PolicyNet := n\<rparr>) ex = spec_target a ex"
  by (simp add: spec_target_def split: option.splits)

lemma spec_update_PolicyNet: "spec_update (a\<lparr>PolicyNet := n\<rparr>) pn ex = spec_update a pn ex"
  by (simp add: spec_update_def spec_target_PolicyNet)

lemma spec_sq_error_PolicyNet:
  "spec_sq_error (a\<lparr>PolicyNet := n\<rparr>) pn ex = spec_sq_error a pn ex"
  by (simp add: spec_sq_error_def spec_target_PolicyNet)

lemma spec_target_StepCount: "spec_target (a\<lparr>StepCount := n\<rparr>) ex = spec_target a ex"
  by (simp add: spec_target_def split: option.splits)

lemma spec_update_StepCount: "spec_update (a\<lparr>StepCount := n\<rparr>) pn ex = spec_update a pn ex"
  by (simp add: spec_update_def spec_target_StepCount)

lemma spec_sq_error_StepCount:
  "spec_sq_error (a\<lparr>StepCount := n\<rparr>) pn ex = spec_sq_error a pn ex"
  by (simp add: spec_sq_error_def spec_target_StepCount)

text \<open>One call of \<^verbatim>\<open>trainOnExperience\<close> that returns.\<close>

lemma trainOnExperience_step:
  assumes "trainOnExperience a ex = Some (a', l)"
  shows "\<exists>out cache tq q net.
      ForwardWithCache (PolicyNet a) (State ex) = Some (out, cache)
    \<and> Forward (PolicyNet a) (State ex) = Some out
    \<and> spec_target a ex = Some tq
    \<and> idx out (action_index (Action ex)) = Some q
    \<and> Backward (PolicyNet a) cache out (action_index (Action ex)) tq = Some net
    \<and> a' = a\<lparr>PolicyNet := net\<rparr>
    \<and> l = (q - tq)\<^sup>2 / 2"
proof -
  from assms obtain tq out cache q net where
    1: "targetQ_of a ex = Some tq" and
    2: "ForwardWithCache (PolicyNet a) (State ex) = Some (out, cache)" and
    3: "idx out (action_index (Action ex)) = Some q" and
    4: "Backward (PolicyNet a) cache out (action_index (Action ex)) tq = Some net" and
    5: "a' = a\<lparr>PolicyNet := net\<rparr>" and
    6: "l = (q - tq) * (q - tq) * 0.5"
    by (auto simp: trainOnExperience_def Let_def split: bind_splits prod.splits)
  have "l = (q - tq)\<^sup>2 / 2" using 6 by (simp add: power2_eq_square)
  moreover have "spec_target a ex = Some tq" using 1 by (simp add: targetQ_of_spec)
  ultimately show ?thesis
    using 2 3 4 5 ForwardWithCache_Forward [OF 2] by blast
qed

text \<open>
  The loop of \<^verbatim>\<open>Train\<close> over a batch: \<open>nets\<close> lists the policy network before each
  transition and after the last one.
\<close>

lemma Train_loop_trace:
  assumes "Train_loop a batch t0 = Some (a', tot)"
  shows "\<exists>nets. length nets = Suc (length batch) \<and> nets ! 0 = PolicyNet a
      \<and> nets ! length batch = PolicyNet a'
      \<and> (\<forall>i<length batch. \<exists>out cache tq.
             ForwardWithCache (nets ! i) (State (batch ! i)) = Some (out, cache)
           \<and> spec_target a (batch ! i) = Some tq
           \<and> Backward (nets ! i) cache out (action_index (Action (batch ! i))) tq
               = Some (nets ! Suc i))
      \<and> (\<forall>i<length batch. spec_update a (nets ! i) (batch ! i) = Some (nets ! Suc i))
      \<and> (\<forall>i<length batch. spec_sq_error a (nets ! i) (batch ! i) \<noteq> None)
      \<and> tot = t0 + (\<Sum>i<length batch. the (spec_sq_error a (nets ! i) (batch ! i)) / 2)"
  using assms
proof (induction batch arbitrary: a t0)
  case Nil
  then show ?case by (intro exI [of _ "[PolicyNet a]"]) simp
next
  case (Cons ex batch)
  from Cons.prems obtain a1 l1 where s: "trainOnExperience a ex = Some (a1, l1)"
    and r: "Train_loop a1 batch (t0 + l1) = Some (a', tot)"
    by (auto split: option.splits)
  from trainOnExperience_step [OF s] obtain out cache tq q n1 where st:
    "ForwardWithCache (PolicyNet a) (State ex) = Some (out, cache)"
    "Forward (PolicyNet a) (State ex) = Some out"
    "spec_target a ex = Some tq"
    "idx out (action_index (Action ex)) = Some q"
    "Backward (PolicyNet a) cache out (action_index (Action ex)) tq = Some n1"
    "a1 = a\<lparr>PolicyNet := n1\<rparr>"
    "l1 = (q - tq)\<^sup>2 / 2"
    by blast
  have p1: "PolicyNet a1 = n1" by (simp add: st(6))
  have upd: "spec_update a (PolicyNet a) ex = Some n1"
    by (simp add: spec_update_def st(1,3,5))
  have err: "spec_sq_error a (PolicyNet a) ex = Some ((q - tq)\<^sup>2)"
    by (simp add: spec_sq_error_def st(2,3,4))
  have fr: "spec_target a1 = spec_target a" "spec_update a1 = spec_update a"
    "spec_sq_error a1 = spec_sq_error a"
    unfolding st(6)
    by (intro ext, rule spec_target_PolicyNet spec_update_PolicyNet spec_sq_error_PolicyNet)+
  from Cons.IH [OF r] obtain nets where n:
    "length nets = Suc (length batch)" "nets ! 0 = n1"
    "nets ! length batch = PolicyNet a'"
    "\<forall>i<length batch. \<exists>out cache tq.
             ForwardWithCache (nets ! i) (State (batch ! i)) = Some (out, cache)
           \<and> spec_target a (batch ! i) = Some tq
           \<and> Backward (nets ! i) cache out (action_index (Action (batch ! i))) tq
               = Some (nets ! Suc i)"
    "\<forall>i<length batch. spec_update a (nets ! i) (batch ! i) = Some (nets ! Suc i)"
    "\<forall>i<length batch. spec_sq_error a (nets ! i) (batch ! i) \<noteq> None"
    "tot = t0 + l1 + (\<Sum>i<length batch. the (spec_sq_error a (nets ! i) (batch ! i)) / 2)"
    unfolding fr p1 by blast
  let ?nets = "PolicyNet a # nets"
  have A: "\<exists>out cache tq.
             ForwardWithCache (?nets ! i) (State ((ex # batch) ! i)) = Some (out, cache)
           \<and> spec_target a ((ex # batch) ! i) = Some tq
           \<and> Backward (?nets ! i) cache out (action_index (Action ((ex # batch) ! i))) tq
               = Some (?nets ! Suc i)" if "i < length (ex # batch)" for i
  proof (cases i)
    case 0
    then show ?thesis using st(1,3,5) n(2) by simp
  next
    case (Suc k)
    with that have "k < length batch" by simp
    with n(4) Suc show ?thesis by simp
  qed
  have B: "spec_update a (?nets ! i) ((ex # batch) ! i) = Some (?nets ! Suc i)"
    if "i < length (ex # batch)" for i
  proof (cases i)
    case 0
    then show ?thesis using upd n(2) by simp
  next
    case (Suc k)
    with that have "k < length batch" by simp
    with n(5) Suc show ?thesis by simp
  qed
  have C: "spec_sq_error a (?nets ! i) ((ex # batch) ! i) \<noteq> None"
    if "i < length (ex # batch)" for i
  proof (cases i)
    case 0
    then show ?thesis using err by simp
  next
    case (Suc k)
    with that have "k < length batch" by simp
    with n(6) Suc show ?thesis by simp
  qed
  have D: "tot = t0 + (\<Sum>i<length (ex # batch).
      the (spec_sq_error a (?nets ! i) ((ex # batch) ! i)) / 2)"
    using n(7) err st(7) by (simp add: sum.lessThan_Suc_shift del: sum.lessThan_Suc)
  have "length ?nets = Suc (length (ex # batch))" "?nets ! 0 = PolicyNet a"
    "?nets ! length (ex # batch) = PolicyNet a'"
    using n(1,3) by simp_all
  with A B C D show ?case by blast
qed

lemma updRow_length: "length (updRow lr x w d) = length w"
  by (simp add: updRow_def)

lemma updWeights_shape: "map length (updWeights lr inp ws d) = map length ws"
proof -
  have "map length (map (\<lambda>(x, w). updRow lr x w d) (zip inp ws))
      = map length (take (length inp) ws)"
    by (induction inp ws rule: list_induct2') (simp_all add: updRow_length)
  then have "map length (updWeights lr inp ws d)
      = map length (take (length inp) ws) @ map length (drop (length inp) ws)"
    by (simp add: updWeights_def)
  also have "\<dots> = map length ws"
    by (simp flip: map_append)
  finally show ?thesis .
qed

lemma updBias_length: "updBias lr b d = Some b' \<Longrightarrow> length b' = length b"
  by (auto simp: updBias_def split: if_splits)

lemma linearBackward_shape:
  assumes "linearBackward lr inp w b d = Some (g, w', b')"
  shows "map length w' = map length w" and "length b' = length b"
proof -
  from assms obtain b'' where "updBias lr b d = Some b''" "w' = updWeights lr inp w d" "b' = b''"
    by (auto simp: linearBackward_def split: bind_splits)
  then show "map length w' = map length w" and "length b' = length b"
    by (simp_all add: updWeights_shape updBias_length)
qed

lemma Backward_shape:
  assumes "Backward n c out i t = Some n'"
  shows "shape n' = shape n"
proof -
  from assms obtain g3 w3 b3 g2 w2 b2 g1 w1 b1 d3 d2 d1 where
    3: "linearBackward (LearningRate n) (h2 c) (W3 n) (B3 n) d3 = Some (g3, w3, b3)" and
    2: "linearBackward (LearningRate n) (h1 c) (W2 n) (B2 n) d2 = Some (g2, w2, b2)" and
    1: "linearBackward (LearningRate n) (input c) (W1 n) (B1 n) d1 = Some (g1, w1, b1)" and
    n': "n' = n\<lparr>W1 := w1, B1 := b1, W2 := w2, B2 := b2, W3 := w3, B3 := b3\<rparr>"
    unfolding Backward_def Let_def
    by (auto split: bind_splits prod.splits)
  show ?thesis
    unfolding n' shape_def
    using linearBackward_shape [OF 1] linearBackward_shape [OF 2] linearBackward_shape [OF 3]
    by simp
qed

lemma copyMatrix_same: "map length dst = map length src \<Longrightarrow> copyMatrix dst src = Some src"
  by (induction dst src rule: copyMatrix.induct) (auto simp: go_copy_def)

lemma CopyFrom_same_shape:
  assumes "shape t = shape p"
  shows "\<exists>t'. CopyFrom t p = Some t' \<and> W1 t' = W1 p \<and> B1 t' = B1 p \<and> W2 t' = W2 p
     \<and> B2 t' = B2 p \<and> W3 t' = W3 p \<and> B3 t' = B3 p"
  using assms by (simp add: CopyFrom_def shape_def copyMatrix_same go_copy_def)

lemma Train_loop_shape:
  "Train_loop a batch t0 = Some (a', tot) \<Longrightarrow> shape (PolicyNet a') = shape (PolicyNet a)"
proof (induction batch arbitrary: a t0)
  case Nil
  then show ?case by simp
next
  case (Cons ex batch)
  from Cons.prems obtain a1 l1 where s: "trainOnExperience a ex = Some (a1, l1)"
    and r: "Train_loop a1 batch (t0 + l1) = Some (a', tot)"
    by (auto split: option.splits)
  from trainOnExperience_step [OF s] obtain out cache tq n1 where
    "Backward (PolicyNet a) cache out (action_index (Action ex)) tq = Some n1"
    "a1 = a\<lparr>PolicyNet := n1\<rparr>"
    by blast
  then have "shape (PolicyNet a1) = shape (PolicyNet a)"
    using Backward_shape by simp
  with Cons.IH [OF r] show ?case by simp
qed

subsection \<open>Evaluation on the concrete inputs\<close>

lemma ForwardWithCache_net0:
  "ForwardWithCache net0 [1]
     = Some ([1], \<lparr>input = [1], z1 = [1], h1 = [1], z2 = [1], h2 = [1]\<rparr>)"
  by (simp add: ForwardWithCache_def net0_def linearForward_def relu_def)

lemma Backward_net0:
  "Backward net0 \<lparr>input = [1], z1 = [1], h1 = [1], z2 = [1], h2 = [1]\<rparr> [1] 0 (- 1)
     = Some net1"
  by (simp add: Backward_def net0_def net1_def make_vec_def idx_def linearBackward_def
      updBias_def updWeights_def updRow_def reluDerivative_def Let_def)

lemma agent0_fields:
  "BatchSize agent0 = 1" "TrainInterval agent0 = 4" "TargetUpdate agent0 = 6"
  "StepCount agent0 = 0" "Size (ReplayBuffer agent0) = 1" "PolicyNet agent0 = net0"
  "TargetNet agent0 = net0"
  by (simp_all add: agent0_def Size_def)

lemma Sample_agent0: "Sample (ReplayBuffer agent0) [0] 1 = Some [ex0]"
  by (simp add: Sample_def agent0_def idx_def)

lemma trainOnExperience_agent0:
  "PolicyNet a = net0 \<Longrightarrow> trainOnExperience a ex0 = Some (a\<lparr>PolicyNet := net1\<rparr>, 2)"
  by (simp add: trainOnExperience_def targetQ_of_def ex0_def ForwardWithCache_net0 idx_def
      Backward_net0)

lemma CopyFrom_net0_net1: "CopyFrom net0 net1 = Some net1"
  by (simp add: CopyFrom_def net0_def net1_def go_copy_def)

text \<open>The fourth call of \<^verbatim>\<open>Train\<close> on \<open>agent0\<close>, with any sync interval \<open>u\<close> but 0.\<close>

lemma Train_agent0_fourth:
  assumes "u \<noteq> 0"
  shows "Train (agent0\<lparr>StepCount := 3, TargetUpdate := u\<rparr>) [0]
     = Some (if go_rem 4 u = 0
             then agent0\<lparr>StepCount := 4, TargetUpdate := u, PolicyNet := net1, TargetNet := net1\<rparr>
             else agent0\<lparr>StepCount := 4, TargetUpdate := u, PolicyNet := net1\<rparr>, 2)"
proof -
  have w: "wrap64 4 = 4" by (simp add: wrap64_def)
  have g: "go_rem 4 4 = 0" by (simp add: go_rem_def)
  show ?thesis
    using assms
    by (simp add: Train_def Let_def w g agent0_fields Sample_agent0 trainOnExperience_agent0
        UpdateTargetNetwork_def CopyFrom_net0_net1)
qed

text \<open>A call of \<^verbatim>\<open>Train\<close> on \<open>agent0\<close> off the train interval.\<close>

lemma Train_agent0_off:
  assumes "0 \<le> k" "k < 100" "\<not> 4 dvd (k + 1)"
  shows "Train (agent0\<lparr>PolicyNet := p, StepCount := k\<rparr>) [0]
     = Some (agent0\<lparr>PolicyNet := p, StepCount := k + 1\<rparr>, 0)"
proof -
  have w: "wrap64 (k + 1) = k + 1" using assms by (intro wrap64_id) simp_all
  have g: "go_rem (k + 1) 4 \<noteq> 0" using assms by (simp add: go_rem_zero_iff)
  show ?thesis
    by (simp add: Train_def Let_def w g agent0_fields)
qed

lemma collect_length: "collect f xs = Some ys \<Longrightarrow> length ys = length xs"
  by (induction xs arbitrary: ys) (auto split: option.splits)

lemma Sample_length:
  assumes "Sample rb perm bs = Some batch" and "0 < bs" and "bs \<le> int (size rb)"
  shows "length batch = nat bs"
proof -
  from assms have "collect (\<lambda>i. idx (buffer rb) (int i)) (take (nat bs) perm) = Some batch"
    and "\<not> length perm < nat bs"
    by (auto simp: Sample_def Let_def split: if_splits)
  from collect_length [OF this(1)] this(2) show ?thesis by simp
qed

lemma agent0_as_update: "agent0\<lparr>PolicyNet := net0, StepCount := 0\<rparr> = agent0"
  by (simp add: agent0_def)

lemma agent0_sync6: "agent0\<lparr>StepCount := k, TargetUpdate := 6\<rparr> = agent0\<lparr>StepCount := k\<rparr>"
  by (simp add: agent0_def)

text \<open>The first five calls of \<^verbatim>\<open>Train\<close> on \<open>agent0\<close>, and the sixth.\<close>

lemma Train_agent0_run:
  "Train_n 5 agent0 [0] = Some (agent0_trained 5)"
  "Train (agent0_trained 5) [0] = Some (agent0_trained 6, 0)"
proof -
  have 1: "Train agent0 [0] = Some (agent0\<lparr>PolicyNet := net0, StepCount := 1\<rparr>, 0)"
    using Train_agent0_off [of 0 net0] by (simp add: agent0_as_update)
  have 2: "Train (agent0\<lparr>PolicyNet := net0, StepCount := 1\<rparr>) [0]
      = Some (agent0\<lparr>PolicyNet := net0, StepCount := 2\<rparr>, 0)"
    using Train_agent0_off [of 1 net0] by simp
  have 3: "Train (agent0\<lparr>PolicyNet := net0, StepCount := 2\<rparr>) [0]
      = Some (agent0\<lparr>PolicyNet := net0, StepCount := 3\<rparr>, 0)"
    using Train_agent0_off [of 2 net0] by simp
  have e: "agent0\<lparr>PolicyNet := net0, StepCount := 3\<rparr> = agent0\<lparr>StepCount := 3, TargetUpdate := 6\<rparr>"
    by (simp add: agent0_def)
  have g: "go_rem 4 6 \<noteq> 0" by (simp add: go_rem_def)
  have 4: "Train (agent0\<lparr>PolicyNet := net0, StepCount := 3\<rparr>) [0] = Some (agent0_trained 4, 2)"
    unfolding e using Train_agent0_fourth [of 6] g
    by (simp add: agent0_trained_def agent0_def)
  have 5: "Train (agent0_trained 4) [0] = Some (agent0_trained 5, 0)"
    unfolding agent0_trained_def using Train_agent0_off [of 4 net1] by simp
  show "Train (agent0_trained 5) [0] = Some (agent0_trained 6, 0)"
    unfolding agent0_trained_def using Train_agent0_off [of 5 net1] by simp
  show "Train_n 5 agent0 [0] = Some (agent0_trained 5)"
    by (simp add: eval_nat_numeral 1 2 3 4 5)
qed

subsection \<open>The forward pass and the length of its input\<close>

lemma dotcol_long: "length ws < length xs \<Longrightarrow> dotcol xs ws j s = None"
  by (induction xs ws j s rule: dotcol.induct) auto

lemma dotcol_short:
  "length xs \<le> length ws \<Longrightarrow> list_all (\<lambda>w. j < length w) ws \<Longrightarrow> \<exists>r. dotcol xs ws j s = Some r"
  by (induction xs ws j s rule: dotcol.induct) auto

lemma dotcol_pad:
  "length xs + k \<le> length ws \<Longrightarrow> list_all (\<lambda>w. j < length w) ws \<Longrightarrow>
     dotcol (xs @ replicate k 0) ws j s = dotcol xs ws j s"
proof (induction xs ws j s rule: dotcol.induct)
  case (1 ws j s)
  then show ?case
  proof (induction k arbitrary: ws)
    case 0
    then show ?case by simp
  next
    case (Suc k)
    then show ?case by (cases ws) auto
  qed
next
  case (2 x xs j s)
  then show ?case by simp
next
  case (3 x xs w ws j s)
  then show ?case by simp
qed

lemma collect_cong: "(\<And>x. x \<in> set xs \<Longrightarrow> f x = g x) \<Longrightarrow> collect f xs = collect g xs"
  by (induction xs) (auto split: option.splits)

lemma collect_total:
  "(\<And>x. x \<in> set xs \<Longrightarrow> \<exists>y. f x = Some y) \<Longrightarrow> \<exists>ys. collect f xs = Some ys \<and> length ys = length xs"
proof (induction xs)
  case Nil
  then show ?case by simp
next
  case (Cons x xs)
  then obtain y ys where "f x = Some y" "collect f xs = Some ys" "length ys = length xs"
    by (meson list.set_intros)
  then show ?case by simp
qed

lemma linearForward_long:
  assumes "bias \<noteq> []" and "length ws < length xs"
  shows "linearForward xs ws bias = None"
proof -
  from assms(1) have "[0..<length bias] = 0 # [1..<length bias]"
    by (simp add: upt_conv_Cons)
  then show ?thesis
    by (simp add: linearForward_def dotcol_long [OF assms(2)])
qed

lemma linearForward_short:
  assumes "length xs \<le> length ws" and "list_all (\<lambda>w. length w = length bias) ws"
  shows "\<exists>r. linearForward xs ws bias = Some r \<and> length r = length bias"
proof -
  have "\<exists>y. dotcol xs ws j (bias ! j) = Some y" if "j \<in> set [0..<length bias]" for j
  proof -
    from that assms(2) have "list_all (\<lambda>w. j < length w) ws"
      by (auto simp: list_all_iff)
    with assms(1) show ?thesis by (rule dotcol_short)
  qed
  from collect_total [of "[0..<length bias]" "\<lambda>j. dotcol xs ws j (bias ! j)", OF this]
  show ?thesis by (simp add: linearForward_def)
qed

lemma linearForward_pad:
  assumes "length xs + k \<le> length ws" and "list_all (\<lambda>w. length w = length bias) ws"
  shows "linearForward (xs @ replicate k 0) ws bias = linearForward xs ws bias"
  unfolding linearForward_def
proof (rule collect_cong)
  fix j assume "j \<in> set [0..<length bias]"
  with assms(2) have "list_all (\<lambda>w. j < length w) ws"
    by (auto simp: list_all_iff)
  with assms(1) show "dotcol (xs @ replicate k 0) ws j (bias ! j) = dotcol xs ws j (bias ! j)"
    by (rule dotcol_pad)
qed

lemma Forward_defined:
  assumes "well_shaped n" and "length inp \<le> nat (InputSize n)"
  shows "\<exists>out. Forward n inp = Some out \<and> length out = length (B3 n)"
proof -
  from assms obtain r1 where 1: "linearForward inp (W1 n) (B1 n) = Some r1"
    "length r1 = length (B1 n)"
    using linearForward_short [of inp "W1 n" "B1 n"] by (auto simp: well_shaped_def)
  from assms 1 obtain r2 where 2: "linearForward (relu r1) (W2 n) (B2 n) = Some r2"
    "length r2 = length (B2 n)"
    using linearForward_short [of "relu r1" "W2 n" "B2 n"]
    by (auto simp: well_shaped_def relu_def)
  from assms 2 obtain r3 where 3: "linearForward (relu r2) (W3 n) (B3 n) = Some r3"
    "length r3 = length (B3 n)"
    using linearForward_short [of "relu r2" "W3 n" "B3 n"]
    by (auto simp: well_shaped_def relu_def)
  show ?thesis by (simp add: Forward_def 1 2 3)
qed

subsection \<open>The state encoder\<close>

lemma NextHead_cell: "Head s = Some p \<Longrightarrow> NextHead s d = Some (spec_cell p d 1)"
  by (cases d) (simp_all add: NextHead_def spec_cell_def Position_Add_def)

lemma NextHead_tempSnake: "NextHead (tempSnake (spec_cell p d 1)) d = Some (spec_cell p d 2)"
  by (cases d) (simp_all add: NextHead_def Head_def tempSnake_def spec_cell_def Position_Add_def)

lemma snakeAt_other: "snakeAt snakes sid = Some s \<Longrightarrow> \<exists>opp. snakeAt snakes (1 - sid) = Some opp"
  by (auto simp: snakeAt_def split: if_splits)

lemma isDanger_defined:
  assumes "snakeAt (Snakes st) sid = Some s"
  shows "isDanger p sid st = Some (spec_dangerous st sid p)"
proof -
  from snakeAt_other [OF assms] obtain opp where "snakeAt (Snakes st) (1 - sid) = Some opp"
    by blast
  with assms show ?thesis
    by (simp add: spec_dangerous_def isDanger_def IsDangerPosition_def)
qed

lemma isDangerExtended_eq:
  assumes "snakeAt (Snakes st) sid = Some s"
  shows "isDangerExtended p1 p2 sid st
     = Some (spec_dangerous st sid p1 \<or> spec_dangerous st sid p2)"
  by (cases "spec_dangerous st sid p1")
    (simp_all add: isDangerExtended_def isDanger_defined [OF assms])

lemma features_tail:
  assumes "length pre = 15"
  shows "(pre @ [f15, f16, f17, f18, f19, f20, f21]) ! 19 = f19"
    and "(pre @ [f15, f16, f17, f18, f19, f20, f21]) ! 20 = f20"
    and "(pre @ [f15, f16, f17, f18, f19, f20, f21]) ! 21 = f21"
  using assms by (simp_all add: nth_append)

text \<open>The encoding of a living snake: fifteen features, then the last seven.\<close>

lemma EncodeState_alive:
  assumes "snakeAt (Snakes st) sid = Some s" and "Alive s" and "Head s = Some head"
    and "snakeAt (Snakes st) (1 - sid) = Some opp" and "Alive opp \<longrightarrow> Body opp \<noteq> []"
  shows "\<exists>pre f15 f16 f17 f18. length pre = 15 \<and>
     EncodeState st sid = Some (pre @ [f15, f16, f17, f18,
       boolToFloat (spec_danger2 st sid head (Direction s)),
       boolToFloat (spec_danger2 st sid head (Direction_TurnLeft (Direction s))),
       boolToFloat (spec_danger2 st sid head (Direction_TurnRight (Direction s)))])"
proof -
  let ?d = "Direction s"
  have "\<exists>oh. (if Alive opp then map_option Some (Head opp) else Some None) = Some oh"
    using assms(5) by (cases "Body opp") (auto simp: Head_def)
  then obtain oh where
    oh: "(if Alive opp then map_option Some (Head opp) else Some None) = Some oh" ..
  define dirBlock :: vec where "dirBlock = (replicate 4 0)[dir_index ?d := 1]"
  define foodBlock where "foodBlock =
           (if Active (Food st)
            then let foodPos = Position (Food st)
                 in [boolToFloat (Y foodPos < Y head), boolToFloat (Y foodPos > Y head),
                     boolToFloat (X foodPos < X head), boolToFloat (X foodPos > X head)]
            else replicate 4 0)"
  define oppBlock where "oppBlock =
           (case oh of
              None \<Rightarrow> replicate 4 0
            | Some oh \<Rightarrow>
                [boolToFloat (Y oh < Y head), boolToFloat (Y oh > Y head),
                 boolToFloat (X oh < X head), boolToFloat (X oh > X head)])"
  define pre where "pre = [boolToFloat (spec_dangerous st sid (spec_cell head ?d 1)),
      boolToFloat (spec_dangerous st sid (spec_cell head (Direction_TurnLeft ?d) 1)),
      boolToFloat (spec_dangerous st sid (spec_cell head (Direction_TurnRight ?d) 1))]
      @ dirBlock @ foodBlock @ oppBlock"
  have len: "length pre = 15"
    by (simp add: pre_def dirBlock_def foodBlock_def oppBlock_def Let_def split: option.splits)
  have "\<exists>f15 f16 f17 f18. EncodeState st sid = Some (pre @ [f15, f16, f17, f18,
       boolToFloat (spec_danger2 st sid head ?d),
       boolToFloat (spec_danger2 st sid head (Direction_TurnLeft ?d)),
       boolToFloat (spec_danger2 st sid head (Direction_TurnRight ?d))])"
    unfolding EncodeState_def
    by (simp add: assms(1-4) oh NextHead_cell [OF assms(3)] NextHead_tempSnake
        isDanger_defined [OF assms(1)] isDangerExtended_eq [OF assms(1)] spec_danger2_def
        pre_def dirBlock_def foodBlock_def oppBlock_def Let_def)
  with len show ?thesis by blast
qed

subsection \<open>The two networks keep one shape\<close>

lemma copyMatrix_shape: "copyMatrix dst src = Some r \<Longrightarrow> map length r = map length dst"
  by (induction dst src arbitrary: r rule: copyMatrix.induct)
    (auto simp: go_copy_def split: option.splits)

lemma CopyFrom_shape: "CopyFrom n other = Some n' \<Longrightarrow> shape n' = shape n"
  by (auto simp: CopyFrom_def shape_def go_copy_def copyMatrix_shape split: bind_splits)

lemma xavierInit_shape:
  "xavierInit fanIn fanOut g off = Some w \<Longrightarrow> map length w = replicate (nat fanIn) (nat fanOut)"
  by (auto simp: xavierInit_def comp_def map_replicate_const split: if_splits)

lemma NewQNetwork_shape:
  assumes "NewQNetwork i k1 k2 o' lr g = Some n"
  shows "shape n = ((replicate (nat i) (nat k1), nat k1), (replicate (nat k1) (nat k2), nat k2),
                    (replicate (nat k2) (nat o'), nat o'))"
    and "InputSize n = i" and "HiddenSize1 n = k1" and "HiddenSize2 n = k2"
    and "OutputSize n = o'"
proof -
  from assms obtain w1 b1 w2 b2 w3 b3 where
    w: "xavierInit i k1 g 0 = Some w1" "make_vec k1 = Some b1"
      "xavierInit k1 k2 g (nat (i * k1)) = Some w2" "make_vec k2 = Some b2"
      "xavierInit k2 o' g (nat (i * k1) + nat (k1 * k2)) = Some w3" "make_vec o' = Some b3"
    and n: "n = \<lparr>W1 = w1, B1 = b1, W2 = w2, B2 = b2, W3 = w3, B3 = b3,
             InputSize = i, HiddenSize1 = k1, HiddenSize2 = k2, OutputSize = o',
             LearningRate = lr\<rparr>"
    by (auto simp: NewQNetwork_def split: bind_splits)
  have "length b1 = nat k1" "length b2 = nat k2" "length b3 = nat o'"
    using w(2,4,6) by (auto simp: make_vec_def split: if_splits)
  then show "shape n = ((replicate (nat i) (nat k1), nat k1),
      (replicate (nat k1) (nat k2), nat k2), (replicate (nat k2) (nat o'), nat o'))"
    using xavierInit_shape [OF w(1)] xavierInit_shape [OF w(3)] xavierInit_shape [OF w(5)]
    by (simp add: n shape_def)
  show "InputSize n = i" "HiddenSize1 n = k1" "HiddenSize2 n = k2" "OutputSize n = o'"
    by (simp_all add: n)
qed

text \<open>A new agent: train interval 4, step counter 0, two networks of one shape.\<close>

lemma NewDQNAgent_initial:
  assumes "NewDQNAgent cfg g g0 = Some a"
  shows "TrainInterval a = 4" and "StepCount a = 0"
    and "shape (TargetNet a) = shape (PolicyNet a)"
proof -
  from assms obtain p t where
    p: "NewQNetwork (cfg_InputSize cfg) (cfg_HiddenSize1 cfg) (cfg_HiddenSize2 cfg)
          (cfg_OutputSize cfg) (cfg_LearningRate cfg) g = Some p"
    and t: "Clone g0 p = Some t"
    and a: "PolicyNet a = p" "TargetNet a = t" "TrainInterval a = 4" "StepCount a = 0"
    by (auto simp: NewDQNAgent_def split: bind_splits)
  from t obtain c where
    c: "NewQNetwork (InputSize p) (HiddenSize1 p) (HiddenSize2 p) (OutputSize p)
          (LearningRate p) g0 = Some c"
    and ct: "CopyFrom c p = Some t"
    by (auto simp: Clone_def split: bind_splits)
  have "shape c = shape p"
    using NewQNetwork_shape(1) [OF c] NewQNetwork_shape [OF p] by simp
  with CopyFrom_shape [OF ct] show "shape (TargetNet a) = shape (PolicyNet a)"
    by (simp add: a)
  show "TrainInterval a = 4" "StepCount a = 0" by (fact a)+
qed

text \<open>\<^verbatim>\<open>Train\<close> keeps the two networks of one shape.\<close>

lemma Train_preserves_shape:
  assumes "Train a perm = Some (a', loss)" and "shape (TargetNet a) = shape (PolicyNet a)"
  shows "shape (TargetNet a') = shape (PolicyNet a')"
  using assms(1)
proof (cases rule: Train_cases)
  case skip
  with assms(2) show ?thesis by simp
next
  case (train batch a2 tot)
  from Train_loop_frame [OF train(4)] obtain n where
    a2: "a2 = a\<lparr>StepCount := wrap64 (StepCount a + 1), PolicyNet := n\<rparr>"
    by auto
  from Train_loop_shape [OF train(4)] have sh: "shape (PolicyNet a2) = shape (PolicyNet a)"
    by simp
  have tn: "TargetNet a2 = TargetNet a" by (simp add: a2)
  show ?thesis
  proof (cases "go_rem (StepCount a2) (TargetUpdate a2) = 0")
    case True
    with train(6) have "UpdateTargetNetwork a2 = Some a'" by simp
    then obtain t where t: "CopyFrom (TargetNet a2) (PolicyNet a2) = Some t"
      and a': "a' = a2\<lparr>TargetNet := t\<rparr>"
      by (auto simp: UpdateTargetNetwork_def split: bind_splits)
    from CopyFrom_shape [OF t] sh tn assms(2) show ?thesis by (simp add: a')
  next
    case False
    with train(6) sh tn assms(2) show ?thesis by simp
  qed
qed

subsection \<open>Evaluation of a batch of two\<close>

lemma Forward_net0: "Forward net0 [1] = Some [1]"
  using ForwardWithCache_Forward [OF ForwardWithCache_net0] .

lemma ForwardWithCache_net0_ex1:
  "ForwardWithCache net0 [2]
     = Some ([2], \<lparr>input = [2], z1 = [2], h1 = [2], z2 = [2], h2 = [2]\<rparr>)"
  by (simp add: ForwardWithCache_def net0_def linearForward_def relu_def)

lemma Backward_net0_ex1:
  "Backward net0 \<lparr>input = [2], z1 = [2], h1 = [2], z2 = [2], h2 = [2]\<rparr> [2] 0 (1 / 2)
     = Some netA"
  by (simp add: Backward_def net0_def netA_def make_vec_def idx_def linearBackward_def
      updBias_def updWeights_def updRow_def reluDerivative_def Let_def)

lemma ForwardWithCache_netA:
  "ForwardWithCache netA [1]
     = Some ([- (3 / 4)], \<lparr>input = [1], z1 = [- (5 / 4)], h1 = [0], z2 = [- (3 / 4)], h2 = [0]\<rparr>)"
  by (simp add: ForwardWithCache_def netA_def linearForward_def relu_def)

lemma Backward_netA:
  "Backward netA \<lparr>input = [1], z1 = [- (5 / 4)], h1 = [0], z2 = [- (3 / 4)], h2 = [0]\<rparr>
     [- (3 / 4)] 0 (- 1) = Some netB"
  by (simp add: Backward_def netA_def netB_def make_vec_def idx_def linearBackward_def
      updBias_def updWeights_def updRow_def reluDerivative_def Let_def)

lemma agentB_fields:
  "BatchSize agentB = 2" "TrainInterval agentB = 4" "TargetUpdate agentB = 6"
  "StepCount agentB = 3" "Size (ReplayBuffer agentB) = 2" "PolicyNet agentB = net0"
  "TargetNet agentB = net0" "Gamma agentB = 1 / 2"
  by (simp_all add: agentB_def agent0_def Size_def)

lemma Sample_agentB: "Sample (ReplayBuffer agentB) [1, 0] 2 = Some [ex1, ex0]"
  by (simp add: Sample_def agentB_def idx_def eval_nat_numeral)

lemma trainOnExperience_ex1:
  assumes "PolicyNet a = net0" "TargetNet a = net0" "Gamma a = 1 / 2"
  shows "trainOnExperience a ex1 = Some (a\<lparr>PolicyNet := netA\<rparr>, 9 / 8)"
proof -
  have "targetQ_of a ex1 = Some (1 / 2)"
    by (simp add: targetQ_of_def ex1_def assms Forward_net0 Max_values_def)
  then show ?thesis
    by (simp add: trainOnExperience_def assms ex1_def ForwardWithCache_net0_ex1 idx_def
        Backward_net0_ex1)
qed

lemma trainOnExperience_ex0_netA:
  assumes "PolicyNet a = netA"
  shows "trainOnExperience a ex0 = Some (a\<lparr>PolicyNet := netB\<rparr>, 1 / 32)"
  by (simp add: trainOnExperience_def targetQ_of_def assms ex0_def ForwardWithCache_netA
      idx_def Backward_netA)

lemma Train_agentB:
  "Train agentB [1, 0] = Some (agentB\<lparr>StepCount := 4, PolicyNet := netB\<rparr>, 37 / 64)"
proof -
  have w: "wrap64 4 = 4" by (simp add: wrap64_def)
  have g: "go_rem 4 4 = 0" "go_rem 4 6 \<noteq> 0" by (simp_all add: go_rem_def)
  have 1: "trainOnExperience (agentB\<lparr>StepCount := 4\<rparr>) ex1
      = Some (agentB\<lparr>StepCount := 4, PolicyNet := netA\<rparr>, 9 / 8)"
    using trainOnExperience_ex1 [of "agentB\<lparr>StepCount := 4\<rparr>"] by (simp add: agentB_fields)
  have 2: "trainOnExperience (agentB\<lparr>StepCount := 4, PolicyNet := netA\<rparr>) ex0
      = Some (agentB\<lparr>StepCount := 4, PolicyNet := netB\<rparr>, 1 / 32)"
    using trainOnExperience_ex0_netA [of "agentB\<lparr>StepCount := 4, PolicyNet := netA\<rparr>"]
    by simp
  show ?thesis
    by (simp add: Train_def Let_def w g agentB_fields Sample_agentB Sample_agentB [unfolded One_nat_def] 1 2)
qed

section \<open>The claims\<close>

subsection \<open>C1: the TD target and the order of the updates\<close>

text \<open>
  Claim C1. When a call of \<^verbatim>\<open>Train\<close> trains (the buffer holds at least a batch and the
  incremented step counter is a multiple of the train interval) and returns, there is
  a list \<open>nets\<close> of policy networks, one before each transition of the sampled batch
  and one after the last: it starts at the old policy network and ends at the new one,
  and the network after transition \<open>i\<close> is the result of one \<^verbatim>\<open>Backward\<close> call on the
  network before it, with the forward cache of that network on the transition's state.
  So \<^verbatim>\<open>Backward\<close> runs once per transition, in batch order, on the weights the previous
  call has left. The target \<open>tq\<close> passed to that call is the reward alone for a terminal
  transition, and otherwise the reward plus \<open>Gamma\<close> times the maximum of the target
  network's output on the next state.
\<close>

theorem Train_uses_TD_targets:
  assumes "Train a perm = Some (a', loss)"
    and "BatchSize a \<le> Size (ReplayBuffer a)"
    and "go_rem (wrap64 (StepCount a + 1)) (TrainInterval a) = 0"
  shows "\<exists>batch nets.
      Sample (ReplayBuffer a) perm (BatchSize a) = Some batch
    \<and> length nets = Suc (length batch)
    \<and> nets ! 0 = PolicyNet a \<and> nets ! length batch = PolicyNet a'
    \<and> (\<forall>i<length batch. \<exists>out cache tq.
          ForwardWithCache (nets ! i) (State (batch ! i)) = Some (out, cache)
        \<and> Backward (nets ! i) cache out (action_index (Action (batch ! i))) tq
            = Some (nets ! Suc i)
        \<and> (if Done (batch ! i) then tq = Reward (batch ! i)
           else \<exists>qs. Forward (TargetNet a) (NextState (batch ! i)) = Some qs \<and> qs \<noteq> []
                  \<and> tq = Reward (batch ! i) + Gamma a * Max (set qs)))"
  using assms(1)
proof (cases rule: Train_cases)
  case skip
  with assms(2,3) show ?thesis by simp
next
  case (train batch a2 tot)
  let ?a1 = "a\<lparr>StepCount := wrap64 (StepCount a + 1)\<rparr>"
  from Train_loop_trace [OF train(4)] obtain nets where n:
    "length nets = Suc (length batch)" "nets ! 0 = PolicyNet ?a1"
    "nets ! length batch = PolicyNet a2"
    "\<forall>i<length batch. \<exists>out cache tq.
           ForwardWithCache (nets ! i) (State (batch ! i)) = Some (out, cache)
         \<and> spec_target ?a1 (batch ! i) = Some tq
         \<and> Backward (nets ! i) cache out (action_index (Action (batch ! i))) tq
             = Some (nets ! Suc i)"
    by blast
  have p: "PolicyNet a' = PolicyNet a2"
  proof (cases "go_rem (StepCount a2) (TargetUpdate a2) = 0")
    case True
    with train(6) have "UpdateTargetNetwork a2 = Some a'" by simp
    from UpdateTargetNetwork_frame [OF this] show ?thesis by auto
  next
    case False
    with train(6) show ?thesis by simp
  qed
  have t: "(if Done ex then tq = Reward ex
           else \<exists>qs. Forward (TargetNet a) (NextState ex) = Some qs \<and> qs \<noteq> []
                  \<and> tq = Reward ex + Gamma a * Max (set qs))"
    if "spec_target ?a1 ex = Some tq" for ex tq
    using that by (auto simp: spec_target_def split: if_splits option.splits)
  have X: "\<forall>i<length batch. \<exists>out cache tq.
          ForwardWithCache (nets ! i) (State (batch ! i)) = Some (out, cache)
        \<and> Backward (nets ! i) cache out (action_index (Action (batch ! i))) tq
            = Some (nets ! Suc i)
        \<and> (if Done (batch ! i) then tq = Reward (batch ! i)
           else \<exists>qs. Forward (TargetNet a) (NextState (batch ! i)) = Some qs \<and> qs \<noteq> []
                  \<and> tq = Reward (batch ! i) + Gamma a * Max (set qs))"
  proof (intro allI impI)
    fix i assume "i < length batch"
    with n(4) obtain out cache tq where
      "ForwardWithCache (nets ! i) (State (batch ! i)) = Some (out, cache)"
      "spec_target ?a1 (batch ! i) = Some tq"
      "Backward (nets ! i) cache out (action_index (Action (batch ! i))) tq
         = Some (nets ! Suc i)"
      by blast
    with t [of "batch ! i" tq]
    show "\<exists>out cache tq.
          ForwardWithCache (nets ! i) (State (batch ! i)) = Some (out, cache)
        \<and> Backward (nets ! i) cache out (action_index (Action (batch ! i))) tq
            = Some (nets ! Suc i)
        \<and> (if Done (batch ! i) then tq = Reward (batch ! i)
           else \<exists>qs. Forward (TargetNet a) (NextState (batch ! i)) = Some qs \<and> qs \<noteq> []
                  \<and> tq = Reward (batch ! i) + Gamma a * Max (set qs))"
      by blast
  qed
  have n2: "nets ! 0 = PolicyNet a" using n(2) by simp
  have n3: "nets ! length batch = PolicyNet a'" using n(3) p by simp
  show ?thesis
    by (intro exI [of _ batch] exI [of _ nets] conjI train(3) n(1) n2 n3 X)
qed

theorem Train_uses_TD_targets_witness:
  "Train agentB [1, 0] = Some (agentB\<lparr>StepCount := 4, PolicyNet := netB\<rparr>, 37 / 64)
   \<and> Sample (ReplayBuffer agentB) [1, 0] (BatchSize agentB) = Some [ex1, ex0]
   \<and> \<not> Done ex1 \<and> Done ex0
   \<and> Forward (TargetNet agentB) (NextState ex1) = Some [1]
   \<and> (\<exists>mid out1 cache1 out2 cache2.
          ForwardWithCache net0 (State ex1) = Some (out1, cache1)
        \<and> Backward net0 cache1 out1 (action_index (Action ex1))
             (Reward ex1 + Gamma agentB * Max (set [1])) = Some mid
        \<and> ForwardWithCache mid (State ex0) = Some (out2, cache2)
        \<and> Backward mid cache2 out2 (action_index (Action ex0)) (Reward ex0) = Some netB)"
proof -
  let ?a' = "agentB\<lparr>StepCount := 4, PolicyNet := netB\<rparr>"
  note t = Train_agentB
  have h1: "BatchSize agentB \<le> Size (ReplayBuffer agentB)" by (simp add: agentB_fields)
  have h2: "go_rem (wrap64 (StepCount agentB + 1)) (TrainInterval agentB) = 0"
    by (simp add: agentB_fields wrap64_def go_rem_def)
  have s: "Sample (ReplayBuffer agentB) [1, 0] (BatchSize agentB) = Some [ex1, ex0]"
    by (simp add: agentB_fields Sample_agentB Sample_agentB [unfolded One_nat_def])
  have d: "\<not> Done ex1" "Done ex0" by (simp_all add: ex0_def ex1_def)
  have f: "Forward (TargetNet agentB) (NextState ex1) = Some [1]"
    by (simp add: agentB_fields ex1_def Forward_net0)
  from Train_uses_TD_targets [OF t h1 h2] obtain batch nets where
    b: "Sample (ReplayBuffer agentB) [1, 0] (BatchSize agentB) = Some batch"
    and n: "nets ! 0 = PolicyNet agentB" "nets ! length batch = PolicyNet ?a'"
    and u: "\<forall>i<length batch. \<exists>out cache tq.
          ForwardWithCache (nets ! i) (State (batch ! i)) = Some (out, cache)
        \<and> Backward (nets ! i) cache out (action_index (Action (batch ! i))) tq
            = Some (nets ! Suc i)
        \<and> (if Done (batch ! i) then tq = Reward (batch ! i)
           else \<exists>qs. Forward (TargetNet agentB) (NextState (batch ! i)) = Some qs \<and> qs \<noteq> []
                  \<and> tq = Reward (batch ! i) + Gamma agentB * Max (set qs))"
    by blast
  from b s have batch: "batch = [ex1, ex0]" by simp
  from n have n0: "nets ! 0 = net0" and n2: "nets ! Suc (Suc 0) = netB"
    by (simp_all add: batch agentB_fields)
  from u [rule_format, of 0] obtain out1 cache1 tq1 where 1:
    "ForwardWithCache (nets ! 0) (State ex1) = Some (out1, cache1)"
    "Backward (nets ! 0) cache1 out1 (action_index (Action ex1)) tq1 = Some (nets ! Suc 0)"
    "tq1 = Reward ex1 + Gamma agentB * Max (set [1])"
    using d(1) f by (auto simp: batch)
  from u [rule_format, of "Suc 0"] obtain out2 cache2 tq2 where 2:
    "ForwardWithCache (nets ! Suc 0) (State ex0) = Some (out2, cache2)"
    "Backward (nets ! Suc 0) cache2 out2 (action_index (Action ex0)) tq2
       = Some (nets ! Suc (Suc 0))"
    "tq2 = Reward ex0"
    using d(2) by (auto simp: batch)
  from 1 2 have "\<exists>mid out1 cache1 out2 cache2.
          ForwardWithCache net0 (State ex1) = Some (out1, cache1)
        \<and> Backward net0 cache1 out1 (action_index (Action ex1))
             (Reward ex1 + Gamma agentB * Max (set [1])) = Some mid
        \<and> ForwardWithCache mid (State ex0) = Some (out2, cache2)
        \<and> Backward mid cache2 out2 (action_index (Action ex0)) (Reward ex0) = Some netB"
    unfolding n0 n2 by blast
  with t s d f show ?thesis by blast
qed

subsection \<open>C2: the calls of Train that do not train\<close>

text \<open>
  Claim C2. Every call of \<^verbatim>\<open>Train\<close> that returns has incremented the step counter
  (\<^verbatim>\<open>StepCount++\<close>, which is \<open>+ 1\<close> below the 64-bit limit). When the buffer holds fewer
  transitions than the batch size, or when the train interval is 4 and the incremented
  counter is not a multiple of 4, the call returns \<open>0\<close> and an agent that differs from
  the old one in the step counter only: the weights and biases of the policy and of
  the target network are the old ones.
\<close>

theorem Train_skips:
  "(\<forall>a' loss. Train a perm = Some (a', loss) \<longrightarrow>
        StepCount a' = wrap64 (StepCount a + 1)
      \<and> (StepCount a < 2 ^ 63 - 1 \<and> - (2 ^ 63) \<le> StepCount a + 1
            \<longrightarrow> StepCount a' = StepCount a + 1))
   \<and> (Size (ReplayBuffer a) < BatchSize a
        \<or> (TrainInterval a = 4 \<and> \<not> 4 dvd wrap64 (StepCount a + 1))
      \<longrightarrow> Train a perm = Some (a\<lparr>StepCount := wrap64 (StepCount a + 1)\<rparr>, 0)
        \<and> PolicyNet (fst (the (Train a perm))) = PolicyNet a
        \<and> TargetNet (fst (the (Train a perm))) = TargetNet a)"
proof (intro conjI allI impI)
  fix a' loss assume t: "Train a perm = Some (a', loss)"
  then show "StepCount a' = wrap64 (StepCount a + 1)" by (rule Train_StepCount)
  assume "StepCount a < 2 ^ 63 - 1 \<and> - (2 ^ 63) \<le> StepCount a + 1"
  then have "wrap64 (StepCount a + 1) = StepCount a + 1"
    by (intro wrap64_id) simp_all
  with t show "StepCount a' = StepCount a + 1" by (simp add: Train_StepCount)
next
  assume h: "Size (ReplayBuffer a) < BatchSize a
        \<or> (TrainInterval a = 4 \<and> \<not> 4 dvd wrap64 (StepCount a + 1))"
  then show r: "Train a perm = Some (a\<lparr>StepCount := wrap64 (StepCount a + 1)\<rparr>, 0)"
    by (auto simp: Train_def Let_def go_rem_zero_iff)
  show "PolicyNet (fst (the (Train a perm))) = PolicyNet a"
    and "TargetNet (fst (the (Train a perm))) = TargetNet a"
    by (simp_all add: r)
qed

theorem Train_skips_witness:
  "Size (ReplayBuffer agent3) < BatchSize agent3
   \<and> Train agent3 [2, 0, 1] = Some (agent3\<lparr>StepCount := 1\<rparr>, 0)
   \<and> PolicyNet (fst (the (Train agent3 [2, 0, 1]))) = net0
   \<and> TargetNet (fst (the (Train agent3 [2, 0, 1]))) = net0
   \<and> \<not> Size (ReplayBuffer agent0) < BatchSize agent0
   \<and> Train agent0 [0] = Some (agent0\<lparr>StepCount := 1\<rparr>, 0)
   \<and> StepCount (fst (the (Train agent0 [0]))) = StepCount agent0 + 1"
proof -
  have s: "Size (ReplayBuffer agent3) < BatchSize agent3"
    by (simp add: agent3_def agent0_def rb3_def Size_def)
  have w3: "wrap64 (StepCount agent3 + 1) = 1"
    by (simp add: agent3_def agent0_def wrap64_def)
  have w0: "wrap64 (StepCount agent0 + 1) = 1"
    by (simp add: agent0_def wrap64_def)
  have i: "TrainInterval agent0 = 4 \<and> \<not> 4 dvd wrap64 (StepCount agent0 + 1)"
    unfolding w0 by (simp add: agent0_def)
  have n: "\<not> Size (ReplayBuffer agent0) < BatchSize agent0"
    by (simp add: agent0_def Size_def)
  have p: "PolicyNet agent3 = net0" "TargetNet agent3 = net0"
    by (simp_all add: agent3_def agent0_def)
  have c: "StepCount agent0 + 1 = 1" by (simp add: agent0_def)
  have b: "StepCount agent0 < 2 ^ 63 - 1 \<and> - (2 ^ 63) \<le> StepCount agent0 + 1"
    by (simp add: agent0_def)
  from s have h3: "Size (ReplayBuffer agent3) < BatchSize agent3
      \<or> (TrainInterval agent3 = 4 \<and> \<not> 4 dvd wrap64 (StepCount agent3 + 1))" ..
  from i have h0: "Size (ReplayBuffer agent0) < BatchSize agent0
      \<or> (TrainInterval agent0 = 4 \<and> \<not> 4 dvd wrap64 (StepCount agent0 + 1))" ..
  note t3 = Train_skips [of agent3 "[2, 0, 1]", THEN conjunct2, rule_format, OF h3]
  note t0 = Train_skips [of agent0 "[0]", THEN conjunct2, rule_format, OF h0]
  from t0 have r0: "Train agent0 [0] = Some (agent0\<lparr>StepCount := wrap64 (StepCount agent0 + 1)\<rparr>, 0)"
    by (rule conjunct1)
  note u0 = Train_skips [of agent0 "[0]", THEN conjunct1, rule_format, OF r0, THEN conjunct2,
      rule_format, OF b]
  have "StepCount (fst (the (Train agent0 [0]))) = StepCount agent0 + 1"
    unfolding r0 using u0 by simp
  moreover have "Train agent0 [0] = Some (agent0\<lparr>StepCount := 1\<rparr>, 0)"
    using r0 unfolding w0 .
  moreover have "Train agent3 [2, 0, 1] = Some (agent3\<lparr>StepCount := 1\<rparr>, 0)"
    using t3 [THEN conjunct1] unfolding w3 .
  moreover have "PolicyNet (fst (the (Train agent3 [2, 0, 1]))) = net0"
    using t3 [THEN conjunct2, THEN conjunct1] unfolding p .
  moreover have "TargetNet (fst (the (Train agent3 [2, 0, 1]))) = net0"
    using t3 [THEN conjunct2, THEN conjunct2] unfolding p .
  ultimately show ?thesis using s n by blast
qed

subsection \<open>C3: the synchronisation of the target network\<close>

text \<open>
  Claim C3 as stated fails. \<open>agent0\<close> (train interval 4, sync interval 6) trains at its
  fourth call of \<^verbatim>\<open>Train\<close>, which changes the policy network. Its sixth call brings the
  step counter to 6, a multiple of the sync interval, but returns before the
  synchronisation because 6 is not a multiple of the train interval: the target
  network still holds the initial weights.
\<close>

theorem Train_no_sync_off_interval_counterexample:
  "Train_n 5 agent0 [0] = Some (agent0_trained 5)
   \<and> Train (agent0_trained 5) [0] = Some (agent0_trained 6, 0)
   \<and> go_rem (StepCount (agent0_trained 6)) (TargetUpdate (agent0_trained 6)) = 0
   \<and> W1 (PolicyNet (agent0_trained 6)) = [[0]]
   \<and> W1 (TargetNet (agent0_trained 6)) = [[1]]
   \<and> W1 (TargetNet (agent0_trained 6)) \<noteq> W1 (PolicyNet (agent0_trained 6))"
proof -
  have "go_rem (StepCount (agent0_trained 6)) (TargetUpdate (agent0_trained 6)) = 0"
    by (simp add: agent0_trained_def agent0_fields go_rem_def)
  moreover have "W1 (PolicyNet (agent0_trained 6)) = [[0]]"
    by (simp add: agent0_trained_def net1_def)
  moreover have "W1 (TargetNet (agent0_trained 6)) = [[1]]"
    by (simp add: agent0_trained_def agent0_fields net0_def)
  ultimately show ?thesis
    using Train_agent0_run by simp
qed

text \<open>
  Claim C3, amended. When a call of \<^verbatim>\<open>Train\<close> trains (the buffer holds at least a batch
  and the incremented step counter is a multiple of the train interval) and the step
  counter after the call is a multiple of the sync interval, then on return the
  weights and biases of the target network equal those of the policy network, as it
  is after the updates of this call; here the two networks have one shape, which
  they have from construction on. A call that returns early (buffer below the batch
  size, or off the train interval) leaves the target network as it was.
\<close>

theorem Train_syncs_target_when_training:
  assumes "Train a perm = Some (a', loss)"
  shows "(BatchSize a \<le> Size (ReplayBuffer a)
       \<and> go_rem (wrap64 (StepCount a + 1)) (TrainInterval a) = 0
       \<and> go_rem (StepCount a') (TargetUpdate a') = 0
       \<and> shape (TargetNet a) = shape (PolicyNet a)
      \<longrightarrow> W1 (TargetNet a') = W1 (PolicyNet a') \<and> B1 (TargetNet a') = B1 (PolicyNet a')
        \<and> W2 (TargetNet a') = W2 (PolicyNet a') \<and> B2 (TargetNet a') = B2 (PolicyNet a')
        \<and> W3 (TargetNet a') = W3 (PolicyNet a') \<and> B3 (TargetNet a') = B3 (PolicyNet a'))
    \<and> (Size (ReplayBuffer a) < BatchSize a
         \<or> go_rem (wrap64 (StepCount a + 1)) (TrainInterval a) \<noteq> 0
      \<longrightarrow> TargetNet a' = TargetNet a)"
  using assms
proof (cases rule: Train_cases)
  case skip
  then show ?thesis by auto
next
  case (train batch a2 tot)
  let ?a1 = "a\<lparr>StepCount := wrap64 (StepCount a + 1)\<rparr>"
  from Train_loop_frame [OF train(4)] obtain n where a2: "a2 = ?a1\<lparr>PolicyNet := n\<rparr>"
    by blast
  from Train_loop_shape [OF train(4)] have sh: "shape (PolicyNet a2) = shape (PolicyNet a)"
    by simp
  have tn: "TargetNet a2 = TargetNet a" by (simp add: a2)
  have "W1 (TargetNet a') = W1 (PolicyNet a') \<and> B1 (TargetNet a') = B1 (PolicyNet a')
        \<and> W2 (TargetNet a') = W2 (PolicyNet a') \<and> B2 (TargetNet a') = B2 (PolicyNet a')
        \<and> W3 (TargetNet a') = W3 (PolicyNet a') \<and> B3 (TargetNet a') = B3 (PolicyNet a')"
    if sync: "go_rem (StepCount a') (TargetUpdate a') = 0"
      and same: "shape (TargetNet a) = shape (PolicyNet a)"
  proof -
    have r: "go_rem (StepCount a2) (TargetUpdate a2) = 0"
    proof (rule ccontr)
      assume c: "go_rem (StepCount a2) (TargetUpdate a2) \<noteq> 0"
      with train(6) have "a' = a2" by simp
      with sync c show False by simp
    qed
    with train(6) have "UpdateTargetNetwork a2 = Some a'" by simp
    then obtain t where t: "CopyFrom (TargetNet a2) (PolicyNet a2) = Some t"
      and a': "a' = a2\<lparr>TargetNet := t\<rparr>"
      by (auto simp: UpdateTargetNetwork_def split: bind_splits)
    have "shape (TargetNet a2) = shape (PolicyNet a2)"
      using sh tn same by simp
    from CopyFrom_same_shape [OF this] t show ?thesis
      by (simp add: a')
  qed
  with train(1,2) show ?thesis by blast
qed

theorem Train_syncs_target_when_training_witness:
  "Train (agent0\<lparr>StepCount := 3, TargetUpdate := 4\<rparr>) [0]
     = Some (agent0\<lparr>StepCount := 4, TargetUpdate := 4, PolicyNet := net1, TargetNet := net1\<rparr>, 2)
   \<and> W1 (TargetNet (agent0\<lparr>StepCount := 4, TargetUpdate := 4, PolicyNet := net1,
        TargetNet := net1\<rparr>)) = [[0]]
   \<and> W1 (PolicyNet (agent0\<lparr>StepCount := 4, TargetUpdate := 4, PolicyNet := net1,
        TargetNet := net1\<rparr>)) = [[0]]
   \<and> Train (agent0_trained 5) [0] = Some (agent0_trained 6, 0)
   \<and> TargetNet (agent0_trained 6) = net0"
proof -
  let ?a = "agent0\<lparr>StepCount := 3, TargetUpdate := 4\<rparr>"
  let ?a' = "agent0\<lparr>StepCount := 4, TargetUpdate := 4, PolicyNet := net1, TargetNet := net1\<rparr>"
  have g: "go_rem 4 4 = 0" by (simp add: go_rem_def)
  have t: "Train ?a [0] = Some (?a', 2)"
    using Train_agent0_fourth [of 4] g by simp
  have h: "BatchSize ?a \<le> Size (ReplayBuffer ?a)
       \<and> go_rem (wrap64 (StepCount ?a + 1)) (TrainInterval ?a) = 0
       \<and> go_rem (StepCount ?a') (TargetUpdate ?a') = 0
       \<and> shape (TargetNet ?a) = shape (PolicyNet ?a)"
    by (simp add: agent0_fields wrap64_def go_rem_def)
  have p: "W1 (PolicyNet ?a') = [[0]]" by (simp add: net1_def)
  from Train_syncs_target_when_training [OF t, THEN conjunct1, rule_format, OF h]
  have e: "W1 (TargetNet ?a') = W1 (PolicyNet ?a')" by (rule conjunct1)
  have t6: "Train (agent0_trained 5) [0] = Some (agent0_trained 6, 0)"
    by (rule Train_agent0_run(2))
  have h6: "Size (ReplayBuffer (agent0_trained 5)) < BatchSize (agent0_trained 5)
         \<or> go_rem (wrap64 (StepCount (agent0_trained 5) + 1))
              (TrainInterval (agent0_trained 5)) \<noteq> 0"
    by (simp add: agent0_trained_def agent0_fields wrap64_def go_rem_def)
  from Train_syncs_target_when_training [OF t6, THEN conjunct2, rule_format, OF h6]
  have "TargetNet (agent0_trained 6) = net0"
    by (simp add: agent0_trained_def agent0_fields)
  with t p e t6 show ?thesis by simp
qed

subsection \<open>C4: the returned loss\<close>

text \<open>
  Claim C4 as stated fails: \<^verbatim>\<open>trainOnExperience\<close> returns
  \<^verbatim>\<open>(currentQ - targetQ) * (currentQ - targetQ) * 0.5\<close>. On the fourth call of \<open>agent0\<close>
  the batch is the single transition \<open>ex0\<close>, whose squared TD error under the policy
  network before the update is \<open>(1 - (-1))\<^sup>2 = 4\<close>; \<^verbatim>\<open>Train\<close> returns \<open>2\<close>.
\<close>

theorem Train_loss_is_halved_counterexample:
  "map_option snd (Train (agent0\<lparr>StepCount := 3\<rparr>) [0]) = Some 2
   \<and> Sample (ReplayBuffer (agent0\<lparr>StepCount := 3\<rparr>)) [0] (BatchSize (agent0\<lparr>StepCount := 3\<rparr>))
       = Some [ex0]
   \<and> spec_sq_error (agent0\<lparr>StepCount := 3\<rparr>) (PolicyNet (agent0\<lparr>StepCount := 3\<rparr>)) ex0 = Some 4
   \<and> (2 :: real) \<noteq> 4 / real (length [ex0])"
proof -
  have g: "go_rem 4 6 \<noteq> 0" by (simp add: go_rem_def)
  have t: "Train (agent0\<lparr>StepCount := 3\<rparr>) [0] = Some (agent0_trained 4, 2)"
    using Train_agent0_fourth [of 6] g
    by (simp add: agent0_sync6 agent0_trained_def)
  have f: "Forward net0 [1] = Some [1]"
    using ForwardWithCache_Forward [OF ForwardWithCache_net0] .
  have e: "spec_sq_error (agent0\<lparr>StepCount := 3\<rparr>) net0 ex0 = Some 4"
    by (simp add: spec_sq_error_def spec_target_def ex0_def f idx_def)
  show ?thesis
    by (simp add: t e agent0_fields Sample_agent0)
qed

text \<open>
  Claim C4, amended. When a call of \<^verbatim>\<open>Train\<close> with a positive batch size trains and
  returns, its return value is the mean over the sampled batch of half the squared TD
  error \<open>(output[action] - targetQ)\<^sup>2 / 2\<close>, where the output is that of the policy
  network before this sample's update (\<open>nets ! i\<close>, the network that the updates on
  the earlier samples of the batch have left).
\<close>

theorem Train_returns_mean_half_squared_error:
  assumes "Train a perm = Some (a', loss)"
    and "BatchSize a \<le> Size (ReplayBuffer a)"
    and "go_rem (wrap64 (StepCount a + 1)) (TrainInterval a) = 0"
    and "0 < BatchSize a"
  shows "\<exists>batch nets.
      Sample (ReplayBuffer a) perm (BatchSize a) = Some batch
    \<and> length batch = nat (BatchSize a)
    \<and> length nets = Suc (length batch) \<and> nets ! 0 = PolicyNet a
    \<and> (\<forall>i<length batch. spec_update a (nets ! i) (batch ! i) = Some (nets ! Suc i))
    \<and> (\<forall>i<length batch. spec_sq_error a (nets ! i) (batch ! i) \<noteq> None)
    \<and> loss = (\<Sum>i<length batch. the (spec_sq_error a (nets ! i) (batch ! i)) / 2)
               / real (length batch)"
  using assms(1)
proof (cases rule: Train_cases)
  case skip
  with assms(2,3) show ?thesis by simp
next
  case (train batch a2 tot)
  let ?a1 = "a\<lparr>StepCount := wrap64 (StepCount a + 1)\<rparr>"
  have fr: "spec_update ?a1 = spec_update a" "spec_sq_error ?a1 = spec_sq_error a"
    by (intro ext, rule spec_update_StepCount spec_sq_error_StepCount)+
  from Train_loop_trace [OF train(4)] obtain nets where n:
    "length nets = Suc (length batch)" "nets ! 0 = PolicyNet ?a1"
    "\<forall>i<length batch. spec_update a (nets ! i) (batch ! i) = Some (nets ! Suc i)"
    "\<forall>i<length batch. spec_sq_error a (nets ! i) (batch ! i) \<noteq> None"
    "tot = 0 + (\<Sum>i<length batch. the (spec_sq_error a (nets ! i) (batch ! i)) / 2)"
    unfolding fr by blast
  have len: "length batch = nat (BatchSize a)"
    using Sample_length [OF train(3) assms(4)] assms(2) by (simp add: Size_def)
  have n2: "nets ! 0 = PolicyNet a" using n(2) by simp
  have l: "loss = (\<Sum>i<length batch. the (spec_sq_error a (nets ! i) (batch ! i)) / 2)
               / real (length batch)"
    using train(5) n(5) by simp
  show ?thesis
    by (intro exI [of _ batch] exI [of _ nets] conjI train(3) len n(1) n2 n(3) n(4) l)
qed

theorem Train_returns_mean_half_squared_error_witness:
  "Train agentB [1, 0] = Some (agentB\<lparr>StepCount := 4, PolicyNet := netB\<rparr>, 37 / 64)
   \<and> 0 < BatchSize agentB
   \<and> spec_sq_error agentB net0 ex1 = Some (9 / 4)
   \<and> spec_sq_error agentB netA ex0 = Some (1 / 16)
   \<and> (37 / 64 :: real) = (9 / 4 / 2 + 1 / 16 / 2) / 2"
proof -
  note t = Train_agentB
  have h1: "BatchSize agentB \<le> Size (ReplayBuffer agentB)" by (simp add: agentB_fields)
  have h2: "go_rem (wrap64 (StepCount agentB + 1)) (TrainInterval agentB) = 0"
    by (simp add: agentB_fields wrap64_def go_rem_def)
  have h3: "0 < BatchSize agentB" by (simp add: agentB_fields)
  have s: "Sample (ReplayBuffer agentB) [1, 0] (BatchSize agentB) = Some [ex1, ex0]"
    by (simp add: agentB_fields Sample_agentB Sample_agentB [unfolded One_nat_def])
  have u1: "spec_update agentB net0 ex1 = Some netA"
    by (simp add: spec_update_def spec_target_def agentB_fields ex1_def Forward_net0
        ForwardWithCache_net0_ex1 Backward_net0_ex1)
  have e1: "spec_sq_error agentB net0 ex1 = Some (9 / 4)"
    using ForwardWithCache_Forward [OF ForwardWithCache_net0_ex1]
    by (simp add: spec_sq_error_def spec_target_def agentB_fields ex1_def Forward_net0 idx_def
        power2_eq_square)
  have e2: "spec_sq_error agentB netA ex0 = Some (1 / 16)"
    using ForwardWithCache_Forward [OF ForwardWithCache_netA]
    by (simp add: spec_sq_error_def spec_target_def ex0_def idx_def power2_eq_square)
  from Train_returns_mean_half_squared_error [OF t h1 h2 h3] obtain batch nets where
    b: "Sample (ReplayBuffer agentB) [1, 0] (BatchSize agentB) = Some batch"
    and n: "nets ! 0 = PolicyNet agentB"
    and u: "\<forall>i<length batch. spec_update agentB (nets ! i) (batch ! i) = Some (nets ! Suc i)"
    and l: "(37 / 64 :: real)
        = (\<Sum>i<length batch. the (spec_sq_error agentB (nets ! i) (batch ! i)) / 2)
            / real (length batch)"
    by blast
  from b s have batch: "batch = [ex1, ex0]" by simp
  from n have n0: "nets ! 0 = net0" by (simp add: agentB_fields)
  from u [rule_format, of 0] have n1: "nets ! Suc 0 = netA"
    by (simp add: batch n0 u1)
  from l have "(37 / 64 :: real) = (9 / 4 / 2 + 1 / 16 / 2) / 2"
    by (simp add: batch n0 n1 e1 e2)
  with t h3 e1 e2 show ?thesis by blast
qed

subsection \<open>C5: an input of the wrong length\<close>

text \<open>
  Claim C5 as stated fails: \<^verbatim>\<open>Forward\<close> has no length check, and \<^verbatim>\<open>linearForward\<close> loops
  over \<^verbatim>\<open>len(input)\<close>. A network of input width 2 accepts an input of length 1 and
  returns an output.
\<close>

theorem Forward_short_input_counterexample:
  "InputSize net2 = 2 \<and> int (length [1 :: real]) \<noteq> InputSize net2
   \<and> Forward net2 [1] = Some [1]"
  by (simp add: net2_def net0_def Forward_def linearForward_def relu_def)

text \<open>
  Claim C5, amended. For a network that satisfies the shape invariant of the data
  model and has at least one unit in its first hidden layer: an input longer than the
  input width makes \<^verbatim>\<open>Forward\<close> fail at that call (the panic of an index out of range,
  no reported shape error); an input shorter than the input width does not fail, it
  is treated as if padded with zeros: \<^verbatim>\<open>Forward\<close> returns an output of the output
  width, the same as for the input extended by zeros to the input width.
\<close>

theorem Forward_input_length:
  assumes "well_shaped n" and "B1 n \<noteq> []"
  shows "(nat (InputSize n) < length inp \<longrightarrow> Forward n inp = None)
    \<and> (length inp < nat (InputSize n) \<longrightarrow>
         (\<exists>out. Forward n inp = Some out \<and> length out = length (B3 n))
       \<and> Forward n inp = Forward n (inp @ replicate (nat (InputSize n) - length inp) 0))"
proof (intro conjI impI)
  assume "nat (InputSize n) < length inp"
  with assms have "linearForward inp (W1 n) (B1 n) = None"
    by (intro linearForward_long) (simp_all add: well_shaped_def)
  then show "Forward n inp = None" by (simp add: Forward_def)
next
  assume short: "length inp < nat (InputSize n)"
  with assms(1) show "\<exists>out. Forward n inp = Some out \<and> length out = length (B3 n)"
    by (intro Forward_defined) simp_all
  from short assms(1)
  have "linearForward (inp @ replicate (nat (InputSize n) - length inp) 0) (W1 n) (B1 n)
      = linearForward inp (W1 n) (B1 n)"
    by (intro linearForward_pad) (simp_all add: well_shaped_def)
  then show "Forward n inp = Forward n (inp @ replicate (nat (InputSize n) - length inp) 0)"
    by (simp add: Forward_def)
qed

theorem Forward_input_length_witness:
  "well_shaped net2 \<and> B1 net2 \<noteq> []
   \<and> Forward net2 [1, 1, 1] = None
   \<and> Forward net2 [1] = Forward net2 [1, 0]"
proof -
  have w: "well_shaped net2" by (simp add: well_shaped_def net2_def net0_def)
  have b: "B1 net2 \<noteq> []" by (simp add: net2_def net0_def)
  have i: "nat (InputSize net2) = 2" by (simp add: net2_def)
  have "nat (InputSize net2) < length [1, 1, 1 :: real]" by (simp add: i)
  with Forward_input_length [OF w b, of "[1, 1, 1]"] have 1: "Forward net2 [1, 1, 1] = None"
    by blast
  have "length [1 :: real] < nat (InputSize net2)" by (simp add: i)
  with Forward_input_length [OF w b, of "[1]"]
  have "Forward net2 [1] = Forward net2 ([1] @ replicate (nat (InputSize net2) - length [1 :: real]) 0)"
    by blast
  moreover have "replicate (nat (InputSize net2) - length [1 :: real]) (0 :: real) = [0]"
    by (simp add: i eval_nat_numeral)
  ultimately have "Forward net2 [1] = Forward net2 [1, 0]" by simp
  with w b 1 show ?thesis by blast
qed

subsection \<open>C6: the two-step danger flags\<close>



subsection \<open>C7: sampling\<close>

text \<open>
  Claim C7. Let the buffer hold \<open>size\<close> entries (in its first \<open>size\<close> slots), let
  \<open>perm\<close> be the permutation of \<open>[0, size)\<close> that \<^verbatim>\<open>rng.Perm\<close> returns, and let the batch
  size be non-negative. Then \<^verbatim>\<open>Sample\<close> returns the entries at the first
  \<open>min batchSize size\<close> indices of \<open>perm\<close>: exactly \<open>min batchSize size\<close> transitions,
  read at pairwise distinct indices below \<open>size\<close>, so no stored entry is drawn twice;
  with \<open>size < batchSize\<close> these are exactly \<open>size\<close> transitions.
\<close>

theorem Sample_without_replacement:
  assumes "distinct perm" and "set perm = {0..<size rb}"
    and "size rb \<le> length (buffer rb)" and "0 \<le> batchSize"
  shows "\<exists>idxs. Sample rb perm batchSize = Some (map (\<lambda>i. buffer rb ! i) idxs)
      \<and> idxs = take (nat batchSize) perm
      \<and> int (length idxs) = min batchSize (int (size rb))
      \<and> distinct idxs \<and> set idxs \<subseteq> {0..<size rb}
      \<and> (int (size rb) < batchSize \<longrightarrow> length idxs = size rb)"
proof -
  have len: "length perm = size rb"
    using assms(1,2) distinct_card [of perm] by simp
  let ?bs = "if batchSize > int (size rb) then int (size rb) else batchSize"
  have tk: "take (nat ?bs) perm = take (nat batchSize) perm"
    using len by auto
  have sub: "set (take (nat batchSize) perm) \<subseteq> {0..<size rb}"
    using assms(2) set_take_subset [of "nat batchSize" perm] by blast
  then have "\<forall>i\<in>set (take (nat batchSize) perm). i < length (buffer rb)"
    using assms(3) by auto
  then have "collect (\<lambda>i. idx (buffer rb) (int i)) (take (nat batchSize) perm)
      = Some (map (\<lambda>i. buffer rb ! i) (take (nat batchSize) perm))"
    by (rule collect_idx)
  moreover have "\<not> ?bs < 0" "\<not> length perm < nat ?bs"
    using assms(4) len by auto
  ultimately have "Sample rb perm batchSize
      = Some (map (\<lambda>i. buffer rb ! i) (take (nat batchSize) perm))"
    unfolding Sample_def Let_def tk by simp
  moreover have "int (length (take (nat batchSize) perm)) = min batchSize (int (size rb))"
    using len assms(4) by auto
  moreover have "int (size rb) < batchSize \<longrightarrow> length (take (nat batchSize) perm) = size rb"
    using len by auto
  ultimately show ?thesis
    using sub assms(1) by auto
qed

theorem Sample_without_replacement_witness:
  "Sample rb3 [2, 0, 1] 4 = Some [ex2, ex0, ex1] \<and> Sample rb3 [2, 0, 1] 2 = Some [ex2, ex0]"
proof -
  have h: "distinct [2, 0, 1 :: nat]" "set [2, 0, 1 :: nat] = {0..<size rb3}"
    "size rb3 \<le> length (buffer rb3)"
    by (auto simp: rb3_def)
  have b: "buffer rb3 ! 0 = ex0" "buffer rb3 ! Suc 0 = ex1" "buffer rb3 ! 2 = ex2"
    by (simp_all add: rb3_def)
  have t: "take (nat 4) [2, 0, 1 :: nat] = [2, 0, 1]" "take (nat 2) [2, 0, 1 :: nat] = [2, 0]"
    by (simp_all add: eval_nat_numeral)
  show ?thesis
    using Sample_without_replacement [OF h, of 4] Sample_without_replacement [OF h, of 2]
    unfolding t by (simp add: b)
qed

subsection \<open>C8: the circular buffer\<close>

text \<open>
  Claim C8. Start from a fresh buffer of capacity \<open>c > 0\<close> and add the items \<open>xs\<close> in
  order. Every call succeeds, and afterwards the count is \<open>min (length xs) c\<close>, never
  more than \<open>c\<close>. Item number \<open>j\<close> of the last \<open>c\<close> items is stored in slot
  \<open>j mod c\<close>; once \<open>c\<close> or more items were added (in particular after \<open>c + k\<close>), reading
  the slots from the write cursor on, wrapping around, gives exactly the most recent
  \<open>c\<close> items, oldest first: the older ones have been overwritten.
\<close>

theorem ReplayBuffer_wraparound:
  assumes "0 < c"
  shows "\<exists>rb. (NewReplayBuffer c \<bind> (\<lambda>rb0. Add_all rb0 xs)) = Some rb
     \<and> size rb \<le> capacity rb \<and> capacity rb = nat c \<and> length (buffer rb) = nat c
     \<and> size rb = min (length xs) (nat c)
     \<and> (\<forall>j<length xs. length xs - nat c \<le> j \<longrightarrow> buffer rb ! (j mod nat c) = xs ! j)
     \<and> (nat c \<le> length xs \<longrightarrow>
          rotate (position rb) (buffer rb) = drop (length xs - nat c) xs)"
proof -
  from assms have c: "0 < nat c" by simp
  from Add_all_invariant [OF c, of xs] obtain rb where
    rb: "Add_all \<lparr>buffer = replicate (nat c) zeroExperience, capacity = nat c, position = 0,
                   size = 0\<rparr> xs = Some rb"
    and inv: "length (buffer rb) = nat c" "capacity rb = nat c"
      "size rb = min (length xs) (nat c)" "position rb = length xs mod nat c"
      "\<forall>j<length xs. length xs - nat c \<le> j \<longrightarrow> buffer rb ! (j mod nat c) = xs ! j"
    by blast
  have new: "(NewReplayBuffer c \<bind> (\<lambda>rb0. Add_all rb0 xs)) = Some rb"
    using assms rb by (simp add: NewReplayBuffer_def)
  have rot: "rotate (position rb) (buffer rb) = drop (length xs - nat c) xs"
    if full: "nat c \<le> length xs"
  proof (rule nth_equalityI)
    show "length (rotate (position rb) (buffer rb)) = length (drop (length xs - nat c) xs)"
      using inv(1) full by simp
  next
    fix i assume "i < length (rotate (position rb) (buffer rb))"
    then have i: "i < nat c" using inv(1) by simp
    let ?j = "length xs - nat c + i"
    have j: "?j < length xs" "length xs - nat c \<le> ?j" using i full by auto
    have "(i + position rb) mod nat c = ?j mod nat c"
    proof -
      have "(i + position rb) mod nat c = (i + length xs) mod nat c"
        using inv(4) by (simp add: mod_add_right_eq)
      also have "i + length xs = ?j + nat c" using full by simp
      also have "(?j + nat c) mod nat c = ?j mod nat c" by simp
      finally show ?thesis .
    qed
    then have "rotate (position rb) (buffer rb) ! i = buffer rb ! (?j mod nat c)"
      using i inv(1) by (simp add: nth_rotate add.commute)
    also have "\<dots> = xs ! ?j" using inv(5) j by blast
    also have "\<dots> = drop (length xs - nat c) xs ! i" using full by simp
    finally show "rotate (position rb) (buffer rb) ! i = drop (length xs - nat c) xs ! i" .
  qed
  show ?thesis using new inv rot by auto
qed

theorem ReplayBuffer_wraparound_witness:
  "\<exists>rb. (NewReplayBuffer 2 \<bind> (\<lambda>rb0. Add_all rb0 [ex0, ex1, ex2])) = Some rb
     \<and> size rb = 2 \<and> capacity rb = 2
     \<and> rotate (position rb) (buffer rb) = [ex1, ex2]"
proof -
  have "(0::int) < 2" by simp
  from ReplayBuffer_wraparound [OF this, of "[ex0, ex1, ex2]"] show ?thesis
    by (auto simp: eval_nat_numeral)
qed

subsection \<open>C9: the decay of epsilon\<close>

text \<open>
  Claim C9 as stated fails: after \<^verbatim>\<open>SetEpsilon(0)\<close>, the override used for playback,
  \<^verbatim>\<open>DecayEpsilon\<close> raises epsilon from \<open>0\<close> to \<^verbatim>\<open>EpsilonMin\<close>.
\<close>

theorem DecayEpsilon_increases_counterexample:
  "Epsilon (SetEpsilon agent0 0) = 0
   \<and> Epsilon (DecayEpsilon (SetEpsilon agent0 0)) = 1 / 100
   \<and> \<not> Epsilon (DecayEpsilon (SetEpsilon agent0 0)) \<le> Epsilon (SetEpsilon agent0 0)"
  by (simp add: DecayEpsilon_def SetEpsilon_def agent0_def Let_def)

text \<open>
  Claim C9, amended. \<^verbatim>\<open>DecayEpsilon\<close> changes epsilon to
  \<open>max EpsilonMin (Epsilon * EpsilonDecay)\<close> and nothing else; the new epsilon is never
  below \<^verbatim>\<open>EpsilonMin\<close>; and it is not above the old epsilon whenever the old epsilon is
  non-negative and not below \<^verbatim>\<open>EpsilonMin\<close> and the decay factor is at most 1.
\<close>

theorem DecayEpsilon_clamped:
  "DecayEpsilon a = a\<lparr>Epsilon := max (EpsilonMin a) (Epsilon a * EpsilonDecay a)\<rparr>
   \<and> EpsilonMin a \<le> Epsilon (DecayEpsilon a)
   \<and> (EpsilonMin a \<le> Epsilon a \<and> 0 \<le> Epsilon a \<and> EpsilonDecay a \<le> 1
        \<longrightarrow> Epsilon (DecayEpsilon a) \<le> Epsilon a)"
proof -
  have "0 \<le> Epsilon a \<Longrightarrow> EpsilonDecay a \<le> 1 \<Longrightarrow> Epsilon a * EpsilonDecay a \<le> Epsilon a"
    by (simp add: mult_left_le)
  then show ?thesis
    by (auto simp: DecayEpsilon_def Let_def max_def)
qed

theorem DecayEpsilon_clamped_witness:
  "EpsilonMin agent0 \<le> Epsilon agent0 \<and> 0 \<le> Epsilon agent0 \<and> EpsilonDecay agent0 \<le> 1
   \<and> Epsilon (DecayEpsilon agent0) \<le> Epsilon agent0
   \<and> Epsilon (DecayEpsilon agent0) = 995 / 1000"
  using DecayEpsilon_clamped [of agent0] by (simp add: agent0_def)

subsection \<open>C10: a failed load\<close>

text \<open>
  Claim C10. When the file cannot be opened, or when it opens and neither the current
  nor the legacy layout decodes, \<^verbatim>\<open>Load\<close> returns that error and the agent is the one
  before the call, so both networks keep their weights, biases and dimensions.
  Conversely, whenever \<^verbatim>\<open>Load\<close> returns an error the agent is unchanged.
\<close>

theorem Load_failure:
  "(os_Open path = Inl err \<longrightarrow>
      Load os_Open decode_new decode_legacy g0 a path = Some (a, Some err))
   \<and> (os_Open path = Inr file \<and> decode_new file = Inl err' \<and> decode_legacy file = Inl err
        \<longrightarrow> Load os_Open decode_new decode_legacy g0 a path = Some (a, Some err))
   \<and> (\<forall>a' e. Load os_Open decode_new decode_legacy g0 a path = Some (a', Some e)
        \<longrightarrow> a' = a \<and> PolicyNet a' = PolicyNet a \<and> TargetNet a' = TargetNet a)"
proof (intro conjI allI impI)
  assume "os_Open path = Inl err"
  then have "LoadNetwork os_Open decode_new decode_legacy path = Inl err"
    by (simp add: LoadNetwork_def)
  then show "Load os_Open decode_new decode_legacy g0 a path = Some (a, Some err)"
    by (simp add: Load_def)
next
  assume "os_Open path = Inr file \<and> decode_new file = Inl err' \<and> decode_legacy file = Inl err"
  then have "LoadNetwork os_Open decode_new decode_legacy path = Inl err"
    by (simp add: LoadNetwork_def)
  then show "Load os_Open decode_new decode_legacy g0 a path = Some (a, Some err)"
    by (simp add: Load_def)
next
  fix a' e
  assume "Load os_Open decode_new decode_legacy g0 a path = Some (a', Some e)"
  then have "a' = a"
    by (auto simp: Load_def split: sum.splits option.splits)
  then show "a' = a" and "PolicyNet a' = PolicyNet a" and "TargetNet a' = TargetNet a"
    by simp_all
qed

theorem Load_failure_witness:
  "Load (\<lambda>p. Inl ''open'') (\<lambda>f :: unit. Inl ''current'') (\<lambda>f. Inl ''legacy'') (\<lambda>k. 0)
      agent0 ''model.gob'' = Some (agent0, Some ''open'')
   \<and> Load (\<lambda>p. Inr ()) (\<lambda>f. Inl ''current'') (\<lambda>f. Inl ''legacy'') (\<lambda>k. 0)
      agent0 ''model.gob'' = Some (agent0, Some ''legacy'')
   \<and> PolicyNet (fst (the (Load (\<lambda>p. Inr ()) (\<lambda>f. Inl ''current'') (\<lambda>f. Inl ''legacy'')
      (\<lambda>k. 0) agent0 ''model.gob''))) = PolicyNet agent0"
proof -
  have 1: "Load (\<lambda>p. Inl ''open'') (\<lambda>f :: unit. Inl ''current'') (\<lambda>f. Inl ''legacy'') (\<lambda>k. 0)
      agent0 ''model.gob'' = Some (agent0, Some ''open'')"
    by (rule Load_failure [THEN conjunct1, rule_format]) (rule refl)
  have 2: "Load (\<lambda>p. Inr ()) (\<lambda>f. Inl ''current'') (\<lambda>f. Inl ''legacy'') (\<lambda>k. 0)
      agent0 ''model.gob'' = Some (agent0, Some ''legacy'')"
    by (rule Load_failure [of _ _ _ _ _ _ _ "()" "''current''",
          THEN conjunct2, THEN conjunct1, rule_format]) (intro conjI refl)
  note 3 = Load_failure [THEN conjunct2, THEN conjunct2, rule_format, OF 2, THEN conjunct2,
      THEN conjunct1]
  have "PolicyNet (fst (the (Load (\<lambda>p. Inr ()) (\<lambda>f. Inl ''current'') (\<lambda>f. Inl ''legacy'')
      (\<lambda>k. 0) agent0 ''model.gob''))) = PolicyNet agent0"
    unfolding 2 by simp
  with 1 2 show ?thesis by blast
qed

end
